theory Spec2Isabelle
  imports Main
begin


section \<open>JavaScript values and configuration objects\<close>

text \<open>
  The plugins receive the ReSpec configuration as a plain JavaScript object. A value is
  one of the primitives, an array or an object; an object is the map from its own
  property names to their values. Numbers occur only as integer literals in the
  sources (the logo dimensions), and no arithmetic is done on them.
\<close>

datatype jsval =
    JUndefined
  | JNull
  | JBool bool
  | JNum int
  | JStr string
  | JArr "jsval list"
  | JObj "string \<Rightarrow> jsval option"

type_synonym obj = "string \<Rightarrow> jsval option"

text \<open>Property read \<open>o.k\<close>: a missing property reads as \<open>undefined\<close>.\<close>

definition get_prop :: "obj \<Rightarrow> string \<Rightarrow> jsval" where
  "get_prop ob k = (case ob k of None \<Rightarrow> JUndefined | Some v \<Rightarrow> v)"

text \<open>JavaScript's \<open>ToBoolean\<close>, negated: the values for which \<open>!v\<close> is true.\<close>

fun falsy :: "jsval \<Rightarrow> bool" where
  "falsy JUndefined = True"
| "falsy JNull = True"
| "falsy (JBool b) = (\<not> b)"
| "falsy (JNum n) = (n = 0)"
| "falsy (JStr s) = (s = [])"
| "falsy (JArr xs) = False"
| "falsy (JObj m) = False"

text \<open>Decimal rendering of an array index, the property name of an element.\<close>

fun show_nat :: "nat \<Rightarrow> string" where
  "show_nat n =
     (if n < 10 then [char_of (48 + n)]
      else show_nat (n div 10) @ [char_of (48 + n mod 10)])"

declare show_nat.simps [simp del]

definition index_props :: "jsval list \<Rightarrow> obj" where
  "index_props xs = map_of (zip (map show_nat [0..<length xs]) xs)"

text \<open>
  The own enumerable properties that an object spread \<open>{...v}\<close> copies:
  nothing for \<open>undefined\<close>, \<open>null\<close>, booleans and numbers, the indexed characters of
  a string, the indexed elements of an array, the properties of an object.
\<close>

fun own_props :: "jsval \<Rightarrow> obj" where
  "own_props (JObj m) = m"
| "own_props (JArr xs) = index_props xs"
| "own_props (JStr s) = index_props (map (\<lambda>c. JStr [c]) s)"
| "own_props v = Map.empty"

section \<open>netage/defaults: the defaults merger\<close>

definition netageDefaults :: obj where
  "netageDefaults =
     [''lint'' \<mapsto> JObj [''privsec-section'' \<mapsto> JBool True],
      ''pluralize'' \<mapsto> JBool True,
      ''doJsonLd'' \<mapsto> JBool False,
      ''license'' \<mapsto> JStr ''w3c-software-doc'',
      ''logos'' \<mapsto> JArr [JObj
         [''src'' \<mapsto> JStr ''https://docs.netage.nl/respec_resources/logo.png'',
          ''alt'' \<mapsto> JStr ''Netage'',
          ''height'' \<mapsto> JNum 160,
          ''width'' \<mapsto> JNum 258,
          ''url'' \<mapsto> JStr ''https://www.netage.nl/'']],
      ''xref'' \<mapsto> JBool True,
      ''prependW3C'' \<mapsto> JBool False]"

text \<open>
  \<open>run(conf)\<close> of netage/defaults. The imported objects \<open>coreDefaults\<close>
  (core/defaults) and \<open>definitionMap\<close> (core/dfn-map) are parameters. An object spread
  \<open>{...a, ...b}\<close> is the map \<open>a ++ b\<close> (the later source wins on a shared name), and
  \<open>Object.assign(conf, src)\<close> leaves \<open>conf ++ src\<close> in \<open>conf\<close>; the function returns
  the configuration object as the call leaves it.
\<close>

definition defaults_run :: "obj \<Rightarrow> jsval \<Rightarrow> obj \<Rightarrow> obj" where
  "defaults_run coreDefaults definitionMap conf =
     (if get_prop conf ''specStatus'' = JStr ''unofficial'' then conf
      else
        let lint =
              (if get_prop conf ''lint'' = JBool False then JBool False
               else JObj (own_props (get_prop coreDefaults ''lint'')
                          ++ own_props (get_prop netageDefaults ''lint'')
                          ++ own_props (get_prop conf ''lint'')));
            conf1 = conf ++ ((coreDefaults ++ netageDefaults ++ conf)(''lint'' \<mapsto> lint))
        in conf1 ++ [''definitionMap'' \<mapsto> definitionMap])"

section \<open>The document tree\<close>

text \<open>
  A DOM node is an element (tag name, class list, attributes, children) or a text node.
  Elements carry an identity of type \<open>'i\<close>: the style plugin never holds on to a node
  it did not just create, so its documents use \<open>unit\<close>; the annotation plugin keeps
  references to headings while it mutates the tree, so its documents use \<open>nat\<close>.
\<close>

datatype 'i node =
    Element (nid: 'i) (tag: string) (classes: "string list")
            (attrs: "(string \<times> string) list") (children: "'i node list")
  | Text string

text \<open>A node followed by its descendants, in document order.\<close>

fun nodes_of :: "'i node \<Rightarrow> 'i node list" where
  "nodes_of (Element i t cs as ks) = Element i t cs as ks # concat (map nodes_of ks)"
| "nodes_of (Text s) = [Text s]"

text \<open>
  \<open>parent.querySelectorAll\<close> and \<open>parent.querySelector\<close> for a selector given as a
  predicate, over the children \<open>ks\<close> of the parent: every matching descendant in document
  order, and the first of them (\<open>null\<close> is \<open>None\<close>).
\<close>

definition querySelectorAll :: "('i node \<Rightarrow> bool) \<Rightarrow> 'i node list \<Rightarrow> 'i node list" where
  "querySelectorAll sel ks = filter sel (concat (map nodes_of ks))"

definition querySelector :: "('i node \<Rightarrow> bool) \<Rightarrow> 'i node list \<Rightarrow> 'i node option" where
  "querySelector sel ks = List.find sel (concat (map nodes_of ks))"

text \<open>The selectors \<open>meta[name=viewport]\<close> and \<open>link[href="url"]\<close>.\<close>

fun meta_viewport :: "'i node \<Rightarrow> bool" where
  "meta_viewport (Element i t cs as ks) = (t = ''meta'' \<and> map_of as ''name'' = Some ''viewport'')"
| "meta_viewport (Text s) = False"

fun link_href :: "string \<Rightarrow> 'i node \<Rightarrow> bool" where
  "link_href url (Element i t cs as ks) = (t = ''link'' \<and> map_of as ''href'' = Some url)"
| "link_href url (Text s) = False"

text \<open>
  Detaching the first node in document order that matches a selector: the node and the
  children list without it, or \<open>None\<close> when nothing matches.
\<close>

fun detach_first :: "('i node \<Rightarrow> bool) \<Rightarrow> 'i node list \<Rightarrow> ('i node \<times> 'i node list) option" where
  "detach_first sel [] = None"
| "detach_first sel (Text s # ns) =
     (if sel (Text s) then Some (Text s, ns)
      else (case detach_first sel ns of
              None \<Rightarrow> None
            | Some (n, ns') \<Rightarrow> Some (n, Text s # ns')))"
| "detach_first sel (Element i t cs as ks # ns) =
     (if sel (Element i t cs as ks) then Some (Element i t cs as ks, ns)
      else (case detach_first sel ks of
              Some (n, ks') \<Rightarrow> Some (n, Element i t cs as ks' # ns)
            | None \<Rightarrow>
                (case detach_first sel ns of
                   None \<Rightarrow> None
                 | Some (n, ns') \<Rightarrow> Some (n, Element i t cs as ks # ns'))))"

section \<open>The style plugin\<close>

subsection \<open>The page the plugin runs in\<close>

text \<open>
  The closures the plugin hands to the hub: the \<open>end-all\<close> handler that calls
  \<open>attachFixupScript(document, version)\<close>, and the handler \<open>styleMover(linkURL)\<close>
  returns.
\<close>

datatype handler = AttachFixupScript string | StyleMover string

datatype error = TypeError | ReferenceError string

text \<open>
  The state the plugin reads and writes: the children of \<open>document.head\<close> and of
  \<open>document.body\<close>, \<open>location.hash\<close>, the \<open>load\<close> listeners put on scripts (script
  URL and the fragment to go to), the hub's subscriptions (topic, handler, the \<open>once\<close>
  option) and the events published so far (topic, message), the console, and the
  bindings of the global object that hold a handler.
\<close>

record world =
  head :: "unit node list"
  body :: "unit node list"
  location_hash :: string
  load_listeners :: "(string \<times> string) list"
  subscriptions :: "(string \<times> handler \<times> bool) list"
  published :: "(string \<times> string) list"
  console :: "string list"
  globals :: "string \<Rightarrow> handler option"

definition attachFixupScript :: "string \<Rightarrow> world \<Rightarrow> world" where
  "attachFixupScript version w =
     (let src = ''https://www.w3.org/scripts/TR/'' @ version @ ''/fixup.js'';
          w1 = (if location_hash w \<noteq> []
                then w\<lparr>load_listeners := load_listeners w @ [(src, location_hash w)]\<rparr>
                else w)
      in w1\<lparr>body := body w1 @ [Element () ''script'' [] [(''src'', src)] []]\<rparr>)"

text \<open>
  Strings are byte strings in UTF-8: a character below 128 is an ASCII character, and a
  run of characters from 128 on encodes the characters outside ASCII.

  What the plugin uses of the browser beyond the document is a parameter of the model,
  since it is in no source file: the Unicode case mapping, as the upper-case form of a
  run of characters outside ASCII; and the selector parser, as what \<open>querySelector\<close>
  and \<open>append\<close> make of the children of head and body when a selector text is built
  from a string that the text does not take literally.
\<close>

record engine =
  upper_nonascii :: "string \<Rightarrow> string"
  move_by_selector ::
    "string \<Rightarrow> unit node list \<times> unit node list \<Rightarrow> unit node list \<times> unit node list"

definition ascii :: "char \<Rightarrow> bool" where
  "ascii c \<longleftrightarrow> (of_char c :: nat) < 128"

text \<open>
  The content of a CSS string token stands for itself when it has no double quote, no
  backslash, no line break (line feed, carriage return, form feed) and no NUL.
\<close>

definition plain_css_string :: "string \<Rightarrow> bool" where
  "plain_css_string s =
     list_all (\<lambda>c. c \<noteq> CHR 0x22 \<and> c \<noteq> CHR 0x5C \<and> c \<noteq> CHR 0x0A \<and> c \<noteq> CHR 0x0D
                  \<and> c \<noteq> CHR 0x0C \<and> c \<noteq> CHR 0x00) s"

text \<open>
  \<open>styleMover(linkURL)\<close> applied to the document being exported, on the children of
  its head and body. The selector is the text \<open>head link[href="\<close>, the URL, \<open>"]\<close>.
  For a URL that the text takes literally, \<open>querySelector\<close> finds the first link with
  that \<open>href\<close> under the head, and \<open>append\<close> moves it to the end of the head;
  \<open>append(null)\<close> appends the text \<open>null\<close>. For any other URL the selector is
  whatever the parser makes of the text (it may select another element, or not parse,
  and then \<open>querySelector\<close> throws and the document stays as it is), and the outcome is
  the engine's.
\<close>

definition styleMover ::
    "engine \<Rightarrow> string \<Rightarrow> unit node list \<times> unit node list \<Rightarrow> unit node list \<times> unit node list" where
  "styleMover eng linkURL doc =
     (if plain_css_string linkURL then
        (case detach_first (link_href linkURL) (fst doc) of
           Some (w3cStyle, rest) \<Rightarrow> (rest @ [w3cStyle], snd doc)
         | None \<Rightarrow> (fst doc @ [Text ''null''], snd doc))
      else move_by_selector eng linkURL doc)"

fun handle :: "engine \<Rightarrow> handler \<Rightarrow> world \<Rightarrow> world" where
  "handle eng (AttachFixupScript version) w = attachFixupScript version w"
| "handle eng (StyleMover linkURL) w =
     (let doc = styleMover eng linkURL (head w, body w) in w\<lparr>head := fst doc, body := snd doc\<rparr>)"

text \<open>
  Modelled from the spec: the publish/subscribe hub (core/pubsubhub is not among the
  sources). \<open>sub(topic, handler, {once})\<close> registers a subscriber; \<open>pub(topic, payload)\<close>
  delivers synchronously to the subscribers registered for the topic at publish time,
  and a subscription made with \<open>once\<close> is dropped when it fires.
\<close>

definition sub :: "string \<Rightarrow> handler \<Rightarrow> bool \<Rightarrow> world \<Rightarrow> world" where
  "sub topic h once w = w\<lparr>subscriptions := subscriptions w @ [(topic, h, once)]\<rparr>"

definition pub :: "engine \<Rightarrow> string \<Rightarrow> string \<Rightarrow> world \<Rightarrow> world" where
  "pub eng topic payload w =
     (let fired = filter (\<lambda>(t, h, once). t = topic) (subscriptions w);
          w1 = w\<lparr>published := published w @ [(topic, payload)],
                 subscriptions := filter (\<lambda>(t, h, once). \<not> (t = topic \<and> once)) (subscriptions w)\<rparr>
      in fold (\<lambda>(t, h, once). handle eng h) fired w1)"

text \<open>
  Modelled from the spec: \<open>linkCSS(document, url)\<close> and \<open>createResourceHint(opts)\<close>
  (core/utils is not among the sources). \<open>linkCSS\<close> injects a stylesheet link for the URL
  into the document head, as its last child; a resource hint is a link element carrying
  the hint as \<open>rel\<close>, the \<open>href\<close> and, when given, \<open>as\<close>.
\<close>

definition stylesheet_link :: "string \<Rightarrow> unit node" where
  "stylesheet_link url = Element () ''link'' [] [(''rel'', ''stylesheet''), (''href'', url)] []"

definition linkCSS :: "string \<Rightarrow> world \<Rightarrow> world" where
  "linkCSS url w = w\<lparr>head := head w @ [stylesheet_link url]\<rparr>"

record resource_hint =
  hint :: string
  href :: string
  as_dest :: "string option"

definition createResourceHint :: "resource_hint \<Rightarrow> unit node" where
  "createResourceHint opts =
     Element () ''link'' []
       ([(''rel'', hint opts), (''href'', href opts)]
        @ (case as_dest opts of None \<Rightarrow> [] | Some a \<Rightarrow> [(''as'', a)])) []"

text \<open>
  \<open>String.prototype.toUpperCase\<close> maps a string character by character, whatever stands
  around a character. On ASCII the letters \<open>a\<close> to \<open>z\<close> go to \<open>A\<close> to \<open>Z\<close> and every
  other character stays; a run of characters outside ASCII goes to what the engine's
  Unicode mapping gives for it (which may be ASCII letters: the dotless i goes to \<open>I\<close>,
  the ligature fi to \<open>FI\<close>).
\<close>

definition upper_char :: "char \<Rightarrow> char" where
  "upper_char c =
     (let n = (of_char c :: nat) in if 97 \<le> n \<and> n \<le> 122 then char_of (n - 32) else c)"

function toUpperCase :: "engine \<Rightarrow> string \<Rightarrow> string" where
  "toUpperCase eng [] = []"
| "toUpperCase eng (c # cs) =
     (if ascii c then upper_char c # toUpperCase eng cs
      else upper_nonascii eng (c # takeWhile (\<lambda>x. \<not> ascii x) cs)
           @ toUpperCase eng (dropWhile (\<lambda>x. \<not> ascii x) cs))"
  by pat_completeness auto
termination
  by (relation "measure (\<lambda>(eng, s). length s)") (auto simp: length_dropWhile_le less_Suc_eq_le)

subsection \<open>The style module, \<open>src/netage/style.js\<close>\<close>

text \<open>
  \<open>toKeyValuePairs\<close> (core/utils) is a parameter; \<open>replace(/"/g, "")\<close> drops every
  double quote of what it returns.
\<close>

definition createMetaViewport :: "((string \<times> string) list \<Rightarrow> string) \<Rightarrow> unit node" where
  "createMetaViewport toKeyValuePairs =
     (let contentProps =
            [(''width'', ''device-width''), (''initial-scale'', ''1''), (''shrink-to-fit'', ''no'')]
      in Element () ''meta'' []
           [(''name'', ''viewport''),
            (''content'', filter (\<lambda>c. c \<noteq> CHR 0x22) (toKeyValuePairs contentProps))] [])"

definition createBaseStyle :: "unit node" where
  "createBaseStyle =
     Element () ''link'' [''removeOnSave'']
       [(''rel'', ''stylesheet''), (''href'', ''https://www.w3.org/StyleSheets/TR/2016/base.css'')] []"

definition createResourceHints :: "unit node list" where
  "createResourceHints =
     foldl (\<lambda>frag link. frag @ [link]) []
       (map createResourceHint
         [\<lparr>hint = ''preconnect'', href = ''https://www.netage.nl'', as_dest = None\<rparr>,
          \<lparr>hint = ''preload'', href = ''https://www.w3.org/scripts/TR/2016/fixup.js'',
           as_dest = Some ''script''\<rparr>,
          \<lparr>hint = ''preload'', href = ''https://www.w3.org/StyleSheets/TR/2016/base.css'',
           as_dest = Some ''style''\<rparr>,
          \<lparr>hint = ''preload'', href = ''https://cloudbox.netage.nl/f/53b55b7650994d1f8528/?dl=1'',
           as_dest = Some ''image''\<rparr>])"

text \<open>The statements the module runs when it is loaded, on the children of the head.\<close>

definition style_load :: "((string \<times> string) list \<Rightarrow> string) \<Rightarrow> unit node list \<Rightarrow> unit node list" where
  "style_load toKeyValuePairs hd_children =
     (let elements = createResourceHints;
          elements = elements @ [createBaseStyle];
          elements = (if querySelector meta_viewport hd_children = None
                      then createMetaViewport toKeyValuePairs # elements
                      else elements)
      in elements @ hd_children)"

definition style_warn :: string where
  "style_warn = ''`respecConfig.specStatus` missing. Defaulting to 'NETAGE-BASIC'.''"

definition selectStyleFile :: "string \<Rightarrow> string" where
  "selectStyleFile status =
     (if status = ''NETAGE-CV''
        then [] @ ''https://netage.github.io/respec_resources/styles/NETAGE-CV.css''
      else if status = ''NETAGE-LD''
        then [] @ ''https://netage.github.io/respec_resources/styles/NETAGE-LD.css''
      else if status = ''NETAGE-FINAL''
        then [] @ ''https://netage.github.io/respec_resources/styles/NETAGE-FINAL.css''
      else if status = ''NETAGE-BASIC''
        then [] @ ''https://netage.github.io/respec_resources/styles/NETAGE-BASIC.css''
      else ''https://netage.github.io/respec_resources/styles/NETAGE-BASIC.css'')"

text \<open>
  \<open>run(conf)\<close>: the configuration and the page as the call leaves them, and the
  exception it ends with, if any. \<open>conf.specStatus.toUpperCase()\<close> is a \<open>TypeError\<close>
  when the value is not a string (no other value has a callable \<open>toUpperCase\<close>).
\<close>

definition style_run :: "engine \<Rightarrow> obj \<Rightarrow> world \<Rightarrow> obj \<times> world \<times> error option" where
  "style_run eng conf w =
     (let (conf1, w1) =
            (if falsy (get_prop conf ''specStatus'')
             then (conf(''specStatus'' \<mapsto> JStr ''NETAGE-BASIC''), pub eng ''warn'' style_warn w)
             else (conf, w))
      in case get_prop conf1 ''specStatus'' of
           JStr s \<Rightarrow>
             (let styleFile = selectStyleFile (toUpperCase eng s);
                  w2 = w1\<lparr>console := console w1 @ [styleFile]\<rparr>;
                  w3 = (if falsy (get_prop conf1 ''noToc'')
                        then sub ''end-all'' (AttachFixupScript ''2016'') True w2
                        else w2)
              in (conf1, linkCSS styleFile w3, None))
         | _ \<Rightarrow> (conf1, w1, Some TypeError))"

subsection \<open>The second copy of the style module, \<open>src/unnamed/part_000\<close>\<close>

definition part000_createBaseStyle :: "unit node" where
  "part000_createBaseStyle =
     Element () ''link'' [''removeOnSave'']
       [(''rel'', ''stylesheet''),
        (''href'', ''https://docs.netage.nl/respec_resources/styles/base.css'')] []"

definition part000_createResourceHints :: "unit node list" where
  "part000_createResourceHints =
     foldl (\<lambda>frag link. frag @ [link]) []
       (map createResourceHint
         [\<lparr>hint = ''preload'', href = ''https://www.w3.org/scripts/TR/2016/fixup.js'',
           as_dest = Some ''script''\<rparr>,
          \<lparr>hint = ''preload'', href = ''https://docs.netage.nl/respec_resources/styles/base.css'',
           as_dest = Some ''style''\<rparr>])"

definition part000_load :: "((string \<times> string) list \<Rightarrow> string) \<Rightarrow> unit node list \<Rightarrow> unit node list" where
  "part000_load toKeyValuePairs hd_children =
     (let elements = part000_createResourceHints;
          elements = elements @ [part000_createBaseStyle];
          elements = (if querySelector meta_viewport hd_children = None
                      then createMetaViewport toKeyValuePairs # elements
                      else elements)
      in elements @ hd_children)"

definition part000_warn :: string where
  "part000_warn = ''`respecConfig.specStatus` missing. Defaulting to 'base'.''"

definition part000_selectStyleFile :: "string \<Rightarrow> string" where
  "part000_selectStyleFile status =
     (if status = ''NETAGE-CV''
        then [] @ ''https://docs.netage.nl/respec_resources/styles/NETAGE-CV.css''
      else if status = ''NETAGE-LD''
        then [] @ ''https://docs.netage.nl/respec_resources/styles/NETAGE-LD.css''
      else if status = ''NETAGE-FINAL''
        then [] @ ''https://docs.netage.nl/respec_resources/styles/NETAGE-FINAL.css''
      else if status = ''NETAGE-BASIC''
        then [] @ ''https://docs.netage.nl/respec_resources/styles/NETAGE-BASIC.css''
      else ''https://docs.netage.nl/respec_resources/styles/NETAGE-BASIC.css'')"

text \<open>
  \<open>run(conf)\<close> of this copy ends with \<open>sub("beforesave", moveStyle)\<close>. The module
  declares no \<open>moveStyle\<close>, so the name is looked up on the global object, and reading
  an unbound name is a \<open>ReferenceError\<close>.
\<close>

definition part000_run :: "engine \<Rightarrow> obj \<Rightarrow> world \<Rightarrow> obj \<times> world \<times> error option" where
  "part000_run eng conf w =
     (let (conf1, w1) =
            (if falsy (get_prop conf ''specStatus'')
             then (conf(''specStatus'' \<mapsto> JStr ''base''), pub eng ''warn'' part000_warn w)
             else (conf, w))
      in case get_prop conf1 ''specStatus'' of
           JStr s \<Rightarrow>
             (let styleFile = part000_selectStyleFile (toUpperCase eng s);
                  w2 = linkCSS styleFile w1
              in case globals w2 ''moveStyle'' of
                   None \<Rightarrow> (conf1, w2, Some (ReferenceError ''moveStyle''))
                 | Some moveStyle \<Rightarrow> (conf1, sub ''beforesave'' moveStyle False w2, None))
         | _ \<Rightarrow> (conf1, w1, Some TypeError))"

text \<open>A page with an empty head and body, no subscriber and no global handler.\<close>

definition blank_page :: world where
  "blank_page =
     \<lparr>head = [], body = [], location_hash = [], load_listeners = [], subscriptions = [],
      published = [], console = [], globals = Map.empty\<rparr>"


section \<open>The build script, \<open>src/unnamed/part_001\<close>\<close>

text \<open>
  The script runs under Node. What it calls and does not define is a parameter of the
  model: the \<open>path\<close> functions, \<open>require.resolve\<close> (the resolved file name, or
  \<open>None\<close> when it throws), the \<open>version\<close> read out of \<open>JSON.parse\<close> (or \<open>None\<close> when
  the content is no JSON), the bundler, and the command-line parser applied to the
  option list. The file system is a map from file names to contents.
\<close>

type_synonym files = "string \<Rightarrow> string option"

datatype failure =
    BuildTypeError string
  | BuildError string
  | ModuleNotFound string
  | NoSuchFile string
  | SyntaxError
  | BundlerFailure string

record webpack_config =
  config_mode :: string
  config_entry :: string
  config_output_path :: string
  config_output_filename :: string
  config_rule_test :: string

text \<open>The bundler's \<open>stats\<close>: \<open>stats.hasErrors()\<close> and \<open>stats.toJson().errors\<close>.\<close>

record stats =
  hasErrors :: bool
  json_errors :: "string list"

record parsed_args =
  arg_help :: bool
  arg_profile :: "string option"
  arg_debug :: bool

record node_env =
  dirname :: string
  path_join :: "string \<Rightarrow> string \<Rightarrow> string"
  path_resolve :: "string \<Rightarrow> string \<Rightarrow> string"
  path_dirname :: "string \<Rightarrow> string"
  require_resolve :: "string \<Rightarrow> string option"
  json_version :: "string \<Rightarrow> string option"
  webpack :: "webpack_config \<Rightarrow> files \<Rightarrow> (string + stats) \<times> files"
  commandLineArgs :: "string list \<Rightarrow> string + parsed_args"

definition readFile :: "files \<Rightarrow> string \<Rightarrow> failure + string" where
  "readFile fs p = (case fs p of None \<Rightarrow> Inl (NoSuchFile p) | Some content \<Rightarrow> Inr content)"

definition writeFile :: "files \<Rightarrow> string \<Rightarrow> string \<Rightarrow> files" where
  "writeFile fs p content = fs(p \<mapsto> content)"

definition copyFile :: "files \<Rightarrow> string \<Rightarrow> string \<Rightarrow> failure + files" where
  "copyFile fs src dst = (case fs src of None \<Rightarrow> Inl (NoSuchFile src) | Some content \<Rightarrow> Inr (fs(dst \<mapsto> content)))"

text \<open>\<open>s.replace(pattern, replacement)\<close> with a string pattern: the first occurrence only.\<close>

fun replace_first :: "string \<Rightarrow> string \<Rightarrow> string \<Rightarrow> string" where
  "replace_first pat rep [] = (if pat = [] then rep else [])"
| "replace_first pat rep (c # cs) =
     (if take (length pat) (c # cs) = pat then rep @ drop (length pat) (c # cs)
      else c # replace_first pat rep cs)"

text \<open>The message of \<open>new Error(array)\<close>: the elements joined by commas.\<close>

fun array_toString :: "string list \<Rightarrow> string" where
  "array_toString [] = []"
| "array_toString [x] = x"
| "array_toString (x # y # ys) = x @ '','' @ array_toString (y # ys)"

text \<open>
  \<open>appendBoilerplate(outPath, version, name)\<close>. \<open>Promise.all\<close> of the two reads fails
  with the failure of the first that fails.
\<close>

definition appendBoilerplate ::
    "node_env \<Rightarrow> string \<Rightarrow> string \<Rightarrow> string \<Rightarrow> files \<Rightarrow> files \<times> failure option" where
  "appendBoilerplate env outPath version name fs =
     (let mapPath = path_dirname env outPath @ ''/respec-'' @ name @ ''.js.map'' in
      case readFile fs outPath of
        Inl e \<Rightarrow> (fs, Some e)
      | Inr optimizedJs \<Rightarrow>
          (case readFile fs mapPath of
             Inl e \<Rightarrow> (fs, Some e)
           | Inr sourceMap \<Rightarrow>
               (let respecJs = [CHR 0x22] @ ''use strict'' @ [CHR 0x22] @ '';'' @ [CHR 0x0A]
                                @ ''window.respecVersion = '' @ [CHR 0x22] @ version @ [CHR 0x22]
                                @ '';'' @ [CHR 0x0A] @ optimizedJs;
                    respecJsMap =
                      replace_first ([CHR 0x22] @ ''mappings'' @ [CHR 0x22] @ '':'' @ [CHR 0x22])
                        ([CHR 0x22] @ ''mappings'' @ [CHR 0x22] @ '':'' @ [CHR 0x22] @ '';;'')
                        sourceMap
                in (writeFile (writeFile fs outPath respecJs) mapPath respecJsMap, None))))"

text \<open>\<open>Builder.getRespecVersion()\<close>: the version in \<open>../package.json\<close>.\<close>

definition getRespecVersion :: "node_env \<Rightarrow> files \<Rightarrow> failure + string" where
  "getRespecVersion env fs =
     (let packagePath = path_join env (dirname env) ''../package.json'' in
      case readFile fs packagePath of
        Inl e \<Rightarrow> Inl e
      | Inr content \<Rightarrow>
          (case json_version env content of None \<Rightarrow> Inl SyntaxError | Some v \<Rightarrow> Inr v))"

text \<open>
  \<open>Builder.build({ name, debug })\<close>: the file system as the call leaves it, and the
  error it throws, if any. The progress line it prints is left out; writing a file is
  taken to succeed.
\<close>

definition build :: "node_env \<Rightarrow> string \<Rightarrow> bool \<Rightarrow> files \<Rightarrow> files \<times> failure option" where
  "build env name dbg fs =
     (if name = [] then (fs, Some (BuildTypeError ''name is required''))
      else
        let buildPath = path_join env (dirname env) ''../builds'';
            outFile = ''respec-'' @ name @ ''.js'';
            outPath = path_join env buildPath outFile
        in case getRespecVersion env fs of
             Inl e \<Rightarrow> (fs, Some e)
           | Inr buildVersion \<Rightarrow>
        (case require_resolve env (''../js/profile-'' @ name @ ''.js'') of
             None \<Rightarrow> (fs, Some (ModuleNotFound (''../js/profile-'' @ name @ ''.js'')))
           | Some entry \<Rightarrow>
        (case require_resolve env ''../js/shortcut.js'' of
             None \<Rightarrow> (fs, Some (ModuleNotFound ''../js/shortcut.js''))
           | Some shortcut \<Rightarrow>
        (let config = \<lparr>config_mode = (if dbg then ''none'' else ''production''),
                        config_entry = entry,
                        config_output_path = buildPath,
                        config_output_filename = outFile,
                        config_rule_test = shortcut\<rparr>;
             buildDir = path_resolve env (dirname env) ''../builds/'';
             workerDir = path_resolve env (dirname env) ''../worker/''
         in case webpack env config fs of
              (Inl e, fs1) \<Rightarrow> (fs1, Some (BundlerFailure e))
            | (Inr st, fs1) \<Rightarrow>
                if hasErrors st then (fs1, Some (BuildError (array_toString (json_errors st))))
                else
                  (case appendBoilerplate env outPath buildVersion name fs1 of
                     (fs2, Some e) \<Rightarrow> (fs2, Some e)
                   | (fs2, None) \<Rightarrow>
                       (case copyFile fs2 (workerDir @ ''/respec-worker.js'')
                               (buildDir @ ''/respec-worker.js'') of
                          Inl e \<Rightarrow> (fs2, Some e)
                        | Inr fs3 \<Rightarrow> (fs3, None)))))))"

text \<open>
  The command-line wrapper. It ends with \<open>process.exit(code)\<close>, or returns without
  calling it when no profile is named. What it prints on the console (the usage guide,
  the error's stack) is left out.
\<close>

datatype exit_status = Exit nat | Returned

definition builder_run :: "node_env \<Rightarrow> string list \<Rightarrow> files \<Rightarrow> exit_status \<times> files" where
  "builder_run env optionList fs =
     (case commandLineArgs env optionList of
        Inl err \<Rightarrow> (Exit 127, fs)
      | Inr parsedArgs \<Rightarrow>
          if arg_help parsedArgs then (Exit 0, fs)
          else
            (case arg_profile parsedArgs of
               None \<Rightarrow> (Returned, fs)
             | Some name \<Rightarrow>
                 if name = [] then (Returned, fs)
                 else
                   (case build env name (arg_debug parsedArgs) fs of
                      (fs', Some err) \<Rightarrow> (Exit 1, fs')
                    | (fs', None) \<Rightarrow> (Exit 0, fs'))))"

text \<open>The names of the options the script declares: \<open>--help\<close>, \<open>--profile\<close>, \<open>--debug\<close>.\<close>

definition optionList :: "string list" where
  "optionList = [''help'', ''profile'', ''debug'']"

text \<open>
  A Node environment to run the script in: the tools directory is \<open>/t\<close>, paths are
  joined with a slash, the version is the content of \<open>package.json\<close>; the parser,
  the module resolver and the bundler are given.
\<close>

definition node_fixture ::
    "(string list \<Rightarrow> string + parsed_args) \<Rightarrow> (string \<Rightarrow> string option)
      \<Rightarrow> (webpack_config \<Rightarrow> files \<Rightarrow> (string + stats) \<times> files) \<Rightarrow> node_env" where
  "node_fixture parser resolver bundler =
     \<lparr>dirname = ''/t'',
      path_join = (\<lambda>a b. a @ ''/'' @ b),
      path_resolve = (\<lambda>a b. a @ ''/'' @ b),
      path_dirname = (\<lambda>p. ''/t/../builds''),
      require_resolve = resolver,
      json_version = (\<lambda>content. Some content),
      webpack = bundler,
      commandLineArgs = parser\<rparr>"

definition files_fixture :: files where
  "files_fixture =
     [''/t/../package.json'' \<mapsto> ''1.0.0'', ''/t/../worker//respec-worker.js'' \<mapsto> ''worker'']"

definition bundler_ok :: "webpack_config \<Rightarrow> files \<Rightarrow> (string + stats) \<times> files" where
  "bundler_ok config fs =
     (Inr \<lparr>hasErrors = False, json_errors = []\<rparr>,
      fs(config_output_path config @ ''/'' @ config_output_filename config \<mapsto> ''bundle'',
         config_output_path config @ ''/'' @ config_output_filename config @ ''.map'' \<mapsto> ''map''))"

definition bundler_errors :: "webpack_config \<Rightarrow> files \<Rightarrow> (string + stats) \<times> files" where
  "bundler_errors config fs = (Inr \<lparr>hasErrors = True, json_errors = [''e1'', ''e2'']\<rparr>, fs)"

section \<open>netage/informative: the annotation plugin\<close>

text \<open>
  The plugin collects references to headings and only then inserts after each of
  them, so its documents give every element an identity (a number, unique in a
  well-formed document). A document is the list of the children of the document node.
\<close>

fun is_element :: "'i node \<Rightarrow> bool" where
  "is_element (Element i t cs as ks) = True"
| "is_element (Text s) = False"

definition all_nodes :: "'i node list \<Rightarrow> 'i node list" where
  "all_nodes ks = concat (map nodes_of ks)"

definition node_ids :: "'i node list \<Rightarrow> 'i list" where
  "node_ids ks = map nid (filter is_element (all_nodes ks))"

text \<open>The selectors \<open>section.informative\<close> and \<open>h2, h3, h4, h5, h6\<close>.\<close>

fun section_informative :: "'i node \<Rightarrow> bool" where
  "section_informative (Element i t cs as ks) = (t = ''section'' \<and> ''informative'' \<in> set cs)"
| "section_informative (Text s) = False"

fun h2_to_h6 :: "'i node \<Rightarrow> bool" where
  "h2_to_h6 (Element i t cs as ks) = (t \<in> set [''h2'', ''h3'', ''h4'', ''h5'', ''h6''])"
| "h2_to_h6 (Text s) = False"

text \<open>
  \<open>node.after(new)\<close> for the element with identity \<open>h\<close>: \<open>new\<close> becomes its next
  sibling.
\<close>

fun after :: "'i \<Rightarrow> 'i node \<Rightarrow> 'i node list \<Rightarrow> 'i node list" where
  "after h new [] = []"
| "after h new (Text s # ns) = Text s # after h new ns"
| "after h new (Element i t cs as ks # ns) =
     (if i = h then Element i t cs as ks # new # ns
      else Element i t cs as (after h new ks) # after h new ns)"

text \<open>
  The fragment \<open><p><em>This section is non-normative.</em></p>\<close> that the template
  literal builds, made of new elements: their identities are taken above every identity
  in the document.
\<close>

definition annotation :: "nat \<Rightarrow> nat node" where
  "annotation i =
     Element i ''p'' [] []
       [Element (Suc i) ''em'' [] [] [Text ''This section is non-normative.'']]"

definition fresh_id :: "nat node list \<Rightarrow> nat" where
  "fresh_id doc = Suc (fold max (node_ids doc) 0)"

text \<open>
  \<open>run()\<close>: the marked sections, the first heading under each, those that are not
  \<open>null\<close>, and an insertion after each of them in turn.
\<close>

definition informative_headings :: "nat node list \<Rightarrow> nat node list" where
  "informative_headings doc =
     map the
       (filter (\<lambda>heading. heading \<noteq> None)
          (map (\<lambda>informative. querySelector h2_to_h6 (children informative))
             (querySelectorAll section_informative doc)))"

definition informative_run :: "nat node list \<Rightarrow> nat node list" where
  "informative_run doc =
     fold (\<lambda>heading d. after (nid heading) (annotation (fresh_id d)) d)
       (informative_headings doc) doc"

text \<open>
  Two documents. The specification's example, a marked section with the heading
  \<open>Foo\<close>, followed by a marked section without a heading; and a marked section whose
  only child is a marked section with a heading.
\<close>

definition example_document :: "nat node list" where
  "example_document =
     [Element 1 ''section'' [''informative''] [] [Element 2 ''h3'' [] [] [Text ''Foo'']],
      Element 3 ''section'' [''informative''] [] [Element 4 ''p'' [] [] [Text ''Bar'']]]"

definition nested_document :: "nat node list" where
  "nested_document =
     [Element 1 ''section'' [''informative''] []
        [Element 2 ''section'' [''informative''] [] [Element 3 ''h2'' [] [] [Text ''Foo'']]]]"

section \<open>What the specification says, as definitions\<close>

text \<open>
  The nested union of three lint mappings, later ones taking precedence per key: the
  user's entry if there is one, otherwise the profile's, otherwise the core's.
\<close>

definition nested_lint_union :: "obj \<Rightarrow> obj \<Rightarrow> obj \<Rightarrow> obj" where
  "nested_lint_union coreLint profileLint userLint =
     (\<lambda>k. case userLint k of
            Some v \<Rightarrow> Some v
          | None \<Rightarrow> (case profileLint k of Some v \<Rightarrow> Some v | None \<Rightarrow> coreLint k))"


definition status_codes :: "string list" where
  "status_codes = [''NETAGE-CV'', ''NETAGE-LD'', ''NETAGE-FINAL'', ''NETAGE-BASIC'']"

definition case_pair :: "char \<Rightarrow> char \<Rightarrow> bool" where
  "case_pair x y \<longleftrightarrow>
     65 \<le> (of_char x :: nat) \<and> (of_char x :: nat) \<le> 90 \<and> (of_char y :: nat) = of_char x + 32"

definition same_ignoring_case :: "string \<Rightarrow> string \<Rightarrow> bool" where
  "same_ignoring_case s t \<longleftrightarrow> list_all2 (\<lambda>x y. x = y \<or> case_pair x y \<or> case_pair y x) s t"

definition no_lower :: "char \<Rightarrow> bool" where
  "no_lower c \<longleftrightarrow> \<not> (97 \<le> (of_char c :: nat) \<and> (of_char c :: nat) \<le> 122)"

text \<open>The three parts of what a \<open>run\<close> of the style plugin leaves behind.\<close>

definition conf_after :: "obj \<times> world \<times> error option \<Rightarrow> obj" where
  "conf_after r = fst r"

definition page_after :: "obj \<times> world \<times> error option \<Rightarrow> world" where
  "page_after r = fst (snd r)"

definition thrown :: "obj \<times> world \<times> error option \<Rightarrow> error option" where
  "thrown r = snd (snd r)"

text \<open>Another plugin appending an element to the head (\<open>document.head.appendChild\<close>).\<close>

definition appendChild_head :: "unit node \<Rightarrow> world \<Rightarrow> world" where
  "appendChild_head n w = w\<lparr>head := head w @ [n]\<rparr>"

text \<open>
  A document with fragments put after its elements: \<open>annotated F doc\<close> is \<open>doc\<close> with the
  nodes \<open>F i\<close> inserted, in this order, right after the element of identity \<open>i\<close>, for
  every element, and nothing else changed. A node has the shape of the annotation when
  it is the annotation fragment up to the identities of its two elements.
\<close>

fun annotated :: "('i \<Rightarrow> 'i node list) \<Rightarrow> 'i node list \<Rightarrow> 'i node list" where
  "annotated F [] = []"
| "annotated F (Text s # ns) = Text s # annotated F ns"
| "annotated F (Element i t cs as ks # ns) =
     Element i t cs as (annotated F ks) # F i @ annotated F ns"

fun annotation_shape :: "nat node \<Rightarrow> bool" where
  "annotation_shape (Element i t cs as ks) =
     (t = ''p'' \<and> cs = [] \<and> as = [] \<and>
      (case ks of
         [Element j t' cs' as' ks'] \<Rightarrow>
           t' = ''em'' \<and> cs' = [] \<and> as' = [] \<and> ks' = [Text ''This section is non-normative.'']
       | _ \<Rightarrow> False))"
| "annotation_shape (Text s) = False"

text \<open>
  The marked sections whose first heading (levels 2 to 6, first in document order among
  the descendants) is the element of identity \<open>i\<close>.
\<close>

definition sections_with_first_heading :: "'i node list \<Rightarrow> 'i \<Rightarrow> 'i node list" where
  "sections_with_first_heading doc i =
     filter (\<lambda>s. map_option nid (querySelector h2_to_h6 (children s)) = Some i)
       (querySelectorAll section_informative doc)"

section \<open>The defaults merger: what \<open>run\<close> leaves in the configuration\<close>

lemma nested_lint_union_add: "nested_lint_union a b c = a ++ b ++ c"
  by (rule ext) (simp add: nested_lint_union_def map_add_def split: option.splits)

lemma get_prop_netage_lint:
  "get_prop netageDefaults ''lint'' = JObj [''privsec-section'' \<mapsto> JBool True]"
  by (simp add: get_prop_def netageDefaults_def)

lemma dom_netageDefaults:
  "dom netageDefaults =
     {''lint'', ''pluralize'', ''doJsonLd'', ''license'', ''logos'', ''xref'', ''prependW3C''}"
  by (auto simp: netageDefaults_def)

text \<open>Past the \<open>unofficial\<close> guard, the configuration in one expression.\<close>

lemma defaults_run_official:
  "get_prop conf ''specStatus'' \<noteq> JStr ''unofficial'' \<Longrightarrow>
     defaults_run coreDefaults definitionMap conf =
       (coreDefaults ++ netageDefaults ++ conf)
         (''lint'' \<mapsto>
            (if get_prop conf ''lint'' = JBool False then JBool False
             else JObj (nested_lint_union (own_props (get_prop coreDefaults ''lint''))
                          [''privsec-section'' \<mapsto> JBool True]
                          (own_props (get_prop conf ''lint'')))),
          ''definitionMap'' \<mapsto> definitionMap)"
  by (rule ext)
     (simp add: defaults_run_def Let_def nested_lint_union_add get_prop_netage_lint map_add_def
        split: option.splits)

text \<open>
  C10. When \<open>conf.specStatus\<close> is the string \<open>unofficial\<close>, \<open>run(conf)\<close> of the defaults
  merger returns at once and leaves \<open>conf\<close> as it was: no core default, no profile
  default and no lint merge is applied.
\<close>

theorem defaults_run_unofficial_unchanged:
  "get_prop conf ''specStatus'' = JStr ''unofficial'' \<Longrightarrow>
     defaults_run coreDefaults definitionMap conf = conf"
  by (simp add: defaults_run_def)

theorem defaults_run_unofficial_unchanged_witness:
  "get_prop [''specStatus'' \<mapsto> JStr ''unofficial'', ''lint'' \<mapsto> JObj [''a'' \<mapsto> JBool True]]
      ''specStatus'' = JStr ''unofficial''
   \<and> defaults_run [''pluralize'' \<mapsto> JBool False] JNull
        [''specStatus'' \<mapsto> JStr ''unofficial'', ''lint'' \<mapsto> JObj [''a'' \<mapsto> JBool True]]
      = [''specStatus'' \<mapsto> JStr ''unofficial'', ''lint'' \<mapsto> JObj [''a'' \<mapsto> JBool True]]"
proof -
  have h: "get_prop [''specStatus'' \<mapsto> JStr ''unofficial'', ''lint'' \<mapsto> JObj [''a'' \<mapsto> JBool True]]
      ''specStatus'' = JStr ''unofficial''"
    by (simp add: get_prop_def)
  show ?thesis
    using h defaults_run_unofficial_unchanged [OF h, of "[''pluralize'' \<mapsto> JBool False]" JNull]
    by simp
qed

text \<open>
  C4, as amended. For every user configuration whose \<open>specStatus\<close> is not the string
  \<open>unofficial\<close> and whose \<open>lint\<close> is not \<open>false\<close>, the effective \<open>lint\<close> is the nested
  union of the core defaults' lint, the profile's lint (\<open>privsec-section: true\<close>) and
  \<open>conf.lint\<close>, the later one taking precedence per key; and whenever \<open>conf.lint\<close> is
  \<open>false\<close>, the effective \<open>lint\<close> is \<open>false\<close>.
\<close>

theorem defaults_run_lint_merged:
  "(get_prop conf ''specStatus'' \<noteq> JStr ''unofficial'' \<and> get_prop conf ''lint'' \<noteq> JBool False \<longrightarrow>
      get_prop (defaults_run coreDefaults definitionMap conf) ''lint'' =
        JObj (nested_lint_union (own_props (get_prop coreDefaults ''lint''))
                [''privsec-section'' \<mapsto> JBool True]
                (own_props (get_prop conf ''lint''))))
   \<and> (get_prop conf ''lint'' = JBool False \<longrightarrow>
      get_prop (defaults_run coreDefaults definitionMap conf) ''lint'' = JBool False)"
proof (cases "get_prop conf ''specStatus'' = JStr ''unofficial''")
  case True
  then show ?thesis by (simp add: defaults_run_def)
next
  case False
  then show ?thesis by (simp add: defaults_run_official get_prop_def)
qed

text \<open>
  The specification's example: a default lint \<open>{a: true}\<close> and a user lint
  \<open>{b: false}\<close> give a lint with both (and the profile's rule); a user lint \<open>false\<close>
  stays \<open>false\<close>.
\<close>

theorem defaults_run_lint_merged_witness:
  "get_prop [''lint'' \<mapsto> JObj [''b'' \<mapsto> JBool False]] ''specStatus'' \<noteq> JStr ''unofficial''
   \<and> get_prop [''lint'' \<mapsto> JObj [''b'' \<mapsto> JBool False]] ''lint'' \<noteq> JBool False
   \<and> (\<exists>m. get_prop (defaults_run [''lint'' \<mapsto> JObj [''a'' \<mapsto> JBool True]] JNull
                        [''lint'' \<mapsto> JObj [''b'' \<mapsto> JBool False]]) ''lint'' = JObj m
          \<and> m ''a'' = Some (JBool True) \<and> m ''b'' = Some (JBool False)
          \<and> m ''privsec-section'' = Some (JBool True))
   \<and> get_prop [''lint'' \<mapsto> JBool False] ''lint'' = JBool False
   \<and> get_prop (defaults_run [''lint'' \<mapsto> JObj [''a'' \<mapsto> JBool True]] JNull
                  [''lint'' \<mapsto> JBool False]) ''lint'' = JBool False"
  using defaults_run_lint_merged [of "[''lint'' \<mapsto> JObj [''b'' \<mapsto> JBool False]]"
          "[''lint'' \<mapsto> JObj [''a'' \<mapsto> JBool True]]" JNull]
        defaults_run_lint_merged [of "[''lint'' \<mapsto> JBool False]"
          "[''lint'' \<mapsto> JObj [''a'' \<mapsto> JBool True]]" JNull]
  by (simp add: get_prop_def nested_lint_union_def)

text \<open>
  The claim as stated fails behind the guard: with \<open>specStatus: "unofficial"\<close> and
  \<open>lint: {a: true}\<close> the lint stays \<open>{a: true}\<close>, which is not the union (the union
  holds \<open>privsec-section\<close>).
\<close>

theorem defaults_run_lint_unofficial_counterexample:
  "get_prop [''specStatus'' \<mapsto> JStr ''unofficial'', ''lint'' \<mapsto> JObj [''a'' \<mapsto> JBool True]] ''lint''
     \<noteq> JBool False
   \<and> get_prop (defaults_run Map.empty JNull
        [''specStatus'' \<mapsto> JStr ''unofficial'', ''lint'' \<mapsto> JObj [''a'' \<mapsto> JBool True]]) ''lint''
     \<noteq> JObj (nested_lint_union (own_props (get_prop Map.empty ''lint''))
              (own_props (get_prop netageDefaults ''lint''))
              (own_props (get_prop [''specStatus'' \<mapsto> JStr ''unofficial'',
                                    ''lint'' \<mapsto> JObj [''a'' \<mapsto> JBool True]] ''lint'')))"
proof -
  have "[''a'' \<mapsto> JBool True] ''privsec-section''
          \<noteq> nested_lint_union Map.empty [''privsec-section'' \<mapsto> JBool True] [''a'' \<mapsto> JBool True]
              ''privsec-section''"
    by (simp add: nested_lint_union_def)
  then have "[''a'' \<mapsto> JBool True]
          \<noteq> nested_lint_union Map.empty [''privsec-section'' \<mapsto> JBool True] [''a'' \<mapsto> JBool True]"
    by metis
  then show ?thesis
    by (simp add: defaults_run_def get_prop_def netageDefaults_def)
qed

text \<open>
  C5, as amended. For every user configuration whose \<open>specStatus\<close> is not the string
  \<open>unofficial\<close>, after the merger has run the keys with a value are those of the core
  defaults, of the profile defaults and of the user configuration, and \<open>definitionMap\<close>;
  every key other than \<open>lint\<close> and \<open>definitionMap\<close> holds the user's value if the user
  supplied the key, otherwise the profile default, otherwise the core default, so that
  every other user key, recognized or not, passes through unchanged; \<open>definitionMap\<close>
  is always set to the shared definition map. The merger has no failing path.
\<close>

theorem defaults_run_effective:
  "get_prop conf ''specStatus'' \<noteq> JStr ''unofficial'' \<Longrightarrow>
     dom (defaults_run coreDefaults definitionMap conf)
       = dom coreDefaults \<union> dom conf
         \<union> {''lint'', ''pluralize'', ''doJsonLd'', ''license'', ''logos'', ''xref'', ''prependW3C'',
             ''definitionMap''}
     \<and> (\<forall>k. k \<noteq> ''lint'' \<and> k \<noteq> ''definitionMap'' \<longrightarrow>
           defaults_run coreDefaults definitionMap conf k =
             (case conf k of
                Some v \<Rightarrow> Some v
              | None \<Rightarrow> (case netageDefaults k of Some v \<Rightarrow> Some v | None \<Rightarrow> coreDefaults k)))
     \<and> defaults_run coreDefaults definitionMap conf ''definitionMap'' = Some definitionMap"
proof -
  assume a: "get_prop conf ''specStatus'' \<noteq> JStr ''unofficial''"
  have d: "dom (defaults_run coreDefaults definitionMap conf)
       = dom coreDefaults \<union> dom conf
         \<union> {''lint'', ''pluralize'', ''doJsonLd'', ''license'', ''logos'', ''xref'', ''prependW3C'',
             ''definitionMap''}"
    unfolding defaults_run_official [OF a] using dom_netageDefaults by auto
  have v: "\<forall>k. k \<noteq> ''lint'' \<and> k \<noteq> ''definitionMap'' \<longrightarrow>
           defaults_run coreDefaults definitionMap conf k =
             (case conf k of
                Some v \<Rightarrow> Some v
              | None \<Rightarrow> (case netageDefaults k of Some v \<Rightarrow> Some v | None \<Rightarrow> coreDefaults k))"
    unfolding defaults_run_official [OF a] by (simp add: map_add_def split: option.splits)
  have m: "defaults_run coreDefaults definitionMap conf ''definitionMap'' = Some definitionMap"
    unfolding defaults_run_official [OF a] by simp
  from d v m show ?thesis by blast
qed

theorem defaults_run_effective_witness:
  "get_prop [''pluralize'' \<mapsto> JBool False, ''editors'' \<mapsto> JArr []] ''specStatus'' \<noteq> JStr ''unofficial''
   \<and> defaults_run [''specStatus'' \<mapsto> JStr ''base'', ''pluralize'' \<mapsto> JBool True] JNull
        [''pluralize'' \<mapsto> JBool False, ''editors'' \<mapsto> JArr []] ''pluralize'' = Some (JBool False)
   \<and> defaults_run [''specStatus'' \<mapsto> JStr ''base'', ''pluralize'' \<mapsto> JBool True] JNull
        [''pluralize'' \<mapsto> JBool False, ''editors'' \<mapsto> JArr []] ''editors'' = Some (JArr [])
   \<and> defaults_run [''specStatus'' \<mapsto> JStr ''base'', ''pluralize'' \<mapsto> JBool True] JNull
        [''pluralize'' \<mapsto> JBool False, ''editors'' \<mapsto> JArr []] ''xref'' = Some (JBool True)
   \<and> defaults_run [''specStatus'' \<mapsto> JStr ''base'', ''pluralize'' \<mapsto> JBool True] JNull
        [''pluralize'' \<mapsto> JBool False, ''editors'' \<mapsto> JArr []] ''specStatus'' = Some (JStr ''base'')
   \<and> defaults_run [''specStatus'' \<mapsto> JStr ''base'', ''pluralize'' \<mapsto> JBool True] JNull
        [''pluralize'' \<mapsto> JBool False, ''editors'' \<mapsto> JArr []] ''definitionMap'' = Some JNull"
proof -
  have h: "get_prop [''pluralize'' \<mapsto> JBool False, ''editors'' \<mapsto> JArr []] ''specStatus''
             \<noteq> JStr ''unofficial''"
    by (simp add: get_prop_def)
  show ?thesis
    using h defaults_run_effective [OF h,
        of "[''specStatus'' \<mapsto> JStr ''base'', ''pluralize'' \<mapsto> JBool True]" JNull]
    by (simp add: netageDefaults_def)
qed

text \<open>
  The claim as stated fails in three places: behind the guard no default is applied
  (\<open>pluralize\<close> stays without a value although both defaults have one); a
  \<open>definitionMap\<close> supplied by the user is replaced; and a \<open>lint\<close> supplied by the user
  is replaced by the merged one.
\<close>

theorem defaults_run_effective_counterexample:
  "defaults_run [''pluralize'' \<mapsto> JBool False] JNull [''specStatus'' \<mapsto> JStr ''unofficial'']
      ''pluralize'' = None
   \<and> netageDefaults ''pluralize'' = Some (JBool True)
   \<and> defaults_run Map.empty JNull [''definitionMap'' \<mapsto> JStr ''mine''] ''definitionMap''
      \<noteq> [''definitionMap'' \<mapsto> JStr ''mine''] ''definitionMap''
   \<and> defaults_run Map.empty JNull [''lint'' \<mapsto> JObj [''a'' \<mapsto> JBool True]] ''lint''
      \<noteq> [''lint'' \<mapsto> JObj [''a'' \<mapsto> JBool True]] ''lint''"
proof -
  have "[''a'' \<mapsto> JBool True] ''privsec-section''
          \<noteq> (Map.empty ++ [''privsec-section'' \<mapsto> JBool True] ++ [''a'' \<mapsto> JBool True])
              ''privsec-section''"
    by simp
  then have "(Map.empty ++ [''privsec-section'' \<mapsto> JBool True] ++ [''a'' \<mapsto> JBool True])
          \<noteq> [''a'' \<mapsto> JBool True]"
    by metis
  then show ?thesis
    by (simp add: defaults_run_def get_prop_def netageDefaults_def)
qed

section \<open>The style plugin: which stylesheet \<open>run\<close> links\<close>


subsection \<open>Upper-casing and the codes\<close>

lemma upper_char_eq_iff:
  assumes "no_lower y"
  shows "upper_char x = y \<longleftrightarrow> (x = y \<or> case_pair x y \<or> case_pair y x)"
proof (cases "97 \<le> (of_char x :: nat) \<and> (of_char x :: nat) \<le> 122")
  case True
  have a: "\<not> case_pair x y" using assms True by (auto simp: case_pair_def no_lower_def)
  have b: "x \<noteq> y" using assms True by (auto simp: no_lower_def)
  have "upper_char x = y \<longleftrightarrow> char_of (of_char x - 32 :: nat) = y"
    using True by (simp add: upper_char_def Let_def)
  also have "\<dots> \<longleftrightarrow> (of_char x - 32 :: nat) = of_char y"
  proof
    assume "char_of (of_char x - 32 :: nat) = y"
    then have "(of_char y :: nat) = (of_char x - 32) mod 256" by (auto simp: of_char_of)
    moreover have "(of_char x - 32 :: nat) < 256" using True by arith
    ultimately show "(of_char x - 32 :: nat) = of_char y" by simp
  next
    assume "(of_char x - 32 :: nat) = of_char y"
    then show "char_of (of_char x - 32 :: nat) = y" by simp
  qed
  also have "\<dots> \<longleftrightarrow> case_pair y x" using True by (auto simp: case_pair_def)
  finally show ?thesis using a b by simp
next
  case False
  have a: "\<not> case_pair y x" using False by (auto simp: case_pair_def)
  have b: "\<not> case_pair x y" using assms by (auto simp: case_pair_def no_lower_def)
  have "upper_char x = x" using False by (auto simp: upper_char_def Let_def)
  then show ?thesis using a b by auto
qed

lemma map_upper_char_eq_iff:
  "list_all no_lower t \<Longrightarrow> map upper_char s = t \<longleftrightarrow> same_ignoring_case s t"
proof (induction s arbitrary: t)
  case Nil
  then show ?case by (auto simp: same_ignoring_case_def)
next
  case (Cons x s)
  show ?case
  proof (cases t)
    case Nil
    then show ?thesis by (simp add: same_ignoring_case_def)
  next
    case (Cons y t')
    with Cons.prems have "no_lower y" "list_all no_lower t'" by simp_all
    then show ?thesis
      using Cons.IH [of t'] Cons upper_char_eq_iff [of y x]
      by (auto simp: same_ignoring_case_def)
  qed
qed

text \<open>On a string of ASCII characters the engine's mapping plays no part.\<close>

lemma toUpperCase_ascii: "list_all ascii s \<Longrightarrow> toUpperCase eng s = map upper_char s"
  by (induction s) auto

lemma codes_no_lower: "c \<in> set status_codes \<Longrightarrow> list_all no_lower c"
  by (auto simp: status_codes_def no_lower_def)

lemma codes_ascii: "c \<in> set status_codes \<Longrightarrow> list_all ascii c"
  by (auto simp: status_codes_def ascii_def)

lemma toUpperCase_code: "c \<in> set status_codes \<Longrightarrow> toUpperCase eng c = c"
  using map_upper_char_eq_iff [OF codes_no_lower, of c c] toUpperCase_ascii [OF codes_ascii, of c eng]
  by (simp add: same_ignoring_case_def list_all2_same)






subsection \<open>The switch\<close>





subsection \<open>The hub\<close>

lemma handle_keeps:
  "published (handle eng h w) = published w" "globals (handle eng h w) = globals w"
  by (cases h; simp add: attachFixupScript_def Let_def)+

lemma fold_handle_keeps:
  "published (fold (\<lambda>(t, h, once). handle eng h) hs w) = published w
   \<and> globals (fold (\<lambda>(t, h, once). handle eng h) hs w) = globals w"
  by (induction hs arbitrary: w) (auto simp: handle_keeps)

lemma pub_published: "published (pub eng topic payload w) = published w @ [(topic, payload)]"
  by (simp add: pub_def Let_def fold_handle_keeps)

lemma pub_globals: "globals (pub eng topic payload w) = globals w"
  by (simp add: pub_def Let_def fold_handle_keeps)

subsection \<open>run\<close>


lemma style_run_falsy:
  "falsy (get_prop conf ''specStatus'') \<Longrightarrow>
     last (head (page_after (style_run eng conf w))) = stylesheet_link (selectStyleFile ''NETAGE-BASIC'')
     \<and> thrown (style_run eng conf w) = None
     \<and> conf_after (style_run eng conf w) = conf(''specStatus'' \<mapsto> JStr ''NETAGE-BASIC'')
     \<and> published (page_after (style_run eng conf w)) = published w @ [(''warn'', style_warn)]"
  using toUpperCase_code [of "''NETAGE-BASIC''" eng]
  by (simp add: style_run_def page_after_def thrown_def conf_after_def Let_def linkCSS_def sub_def
      get_prop_def status_codes_def pub_published)







text \<open>The copy in \<open>src/netage/style.js\<close> returns normally in every other case.\<close>

lemma style_run_returns_iff:
  "thrown (style_run eng conf w) = None
     \<longleftrightarrow> falsy (get_prop conf ''specStatus'') \<or> (\<exists>s. get_prop conf ''specStatus'' = JStr s)"
proof (cases "falsy (get_prop conf ''specStatus'')")
  case True
  then show ?thesis using style_run_falsy [of conf eng w] by simp
next
  case False
  then show ?thesis
    by (cases "get_prop conf ''specStatus''")
       (simp_all add: style_run_def thrown_def Let_def)
qed

section \<open>The style plugin: a missing status\<close>

text \<open>
  In src/netage/style.js a missing (falsy) \<open>specStatus\<close> becomes \<open>NETAGE-BASIC\<close>, the
  code its warning names, one \<open>warn\<close> event is published, and \<open>run\<close> returns.
\<close>

lemma style_run_missing_status:
  "falsy (get_prop conf ''specStatus'') \<Longrightarrow>
     get_prop (conf_after (style_run eng conf w)) ''specStatus'' = JStr ''NETAGE-BASIC''
     \<and> published (page_after (style_run eng conf w)) = published w @ [(''warn'', style_warn)]
     \<and> thrown (style_run eng conf w) = None"
  using style_run_falsy [of conf eng w] by (simp add: get_prop_def)

text \<open>
  The other copy does the same with the code \<open>base\<close>, and then fails on its last
  statement whenever the page has no global \<open>moveStyle\<close>.
\<close>

lemma part000_run_throws:
  assumes "globals w ''moveStyle'' = None"
  shows "thrown (part000_run eng conf w) \<noteq> None"
proof (cases "falsy (get_prop conf ''specStatus'')")
  case True
  then show ?thesis using assms
    by (simp add: part000_run_def thrown_def Let_def get_prop_def linkCSS_def pub_globals)
next
  case False
  then show ?thesis using assms
    by (cases "get_prop conf ''specStatus''")
       (simp_all add: part000_run_def thrown_def Let_def linkCSS_def)
qed

text \<open>
  C3. With \<open>specStatus\<close> missing, \<open>run(conf)\<close> is to leave the fallback code in
  \<open>conf.specStatus\<close>, publish exactly one warning and never fail. Evaluated on the
  copy in \<open>src/unnamed/part_000\<close> for the empty configuration on a blank page: the
  fallback \<open>base\<close> is set and one warning is published, but \<open>run\<close> ends with a
  \<open>ReferenceError\<close> for \<open>moveStyle\<close>.
\<close>

theorem part000_run_missing_status_fails:
  "get_prop (conf_after (part000_run eng Map.empty blank_page)) ''specStatus'' = JStr ''base''
   \<and> published (page_after (part000_run eng Map.empty blank_page)) = [(''warn'', part000_warn)]
   \<and> thrown (part000_run eng Map.empty blank_page) = Some (ReferenceError ''moveStyle'')"
  by (simp add: part000_run_def thrown_def conf_after_def page_after_def blank_page_def
      get_prop_def Let_def linkCSS_def pub_def)

section \<open>The style plugin: exceptions\<close>

text \<open>
  C7. No operation of the style plugin is to throw, for any configuration and document.
  Evaluated on the copy in \<open>src/unnamed/part_000\<close> for the configuration
  \<open>{specStatus: "NETAGE-CV"}\<close> on a blank page: \<open>run\<close> links the stylesheet and then
  throws a \<open>ReferenceError\<close>, because \<open>moveStyle\<close> is bound nowhere.
\<close>

theorem part000_run_reference_error:
  "thrown (part000_run eng [''specStatus'' \<mapsto> JStr ''NETAGE-CV''] blank_page)
     = Some (ReferenceError ''moveStyle'')
   \<and> head (page_after (part000_run eng [''specStatus'' \<mapsto> JStr ''NETAGE-CV''] blank_page))
     = [stylesheet_link ''https://docs.netage.nl/respec_resources/styles/NETAGE-CV.css'']"
  using toUpperCase_code [of "''NETAGE-CV''" eng]
  by (simp add: part000_run_def thrown_def page_after_def blank_page_def get_prop_def Let_def
      linkCSS_def status_codes_def part000_selectStyleFile_def)

section \<open>The style plugin: the head at export\<close>

lemma find_append_nodes:
  "List.find sel (xs @ ys) = (case List.find sel xs of None \<Rightarrow> List.find sel ys | Some x \<Rightarrow> Some x)"
  by (induction xs) auto

lemma querySelector_Nil: "querySelector sel [] = None"
  by (simp add: querySelector_def)

lemma querySelector_Text:
  "querySelector sel (Text s # ns) = (if sel (Text s) then Some (Text s) else querySelector sel ns)"
  by (simp add: querySelector_def)

lemma querySelector_Element:
  "querySelector sel (Element i t cs as ks # ns) =
     (if sel (Element i t cs as ks) then Some (Element i t cs as ks)
      else (case querySelector sel ks of None \<Rightarrow> querySelector sel ns | Some n \<Rightarrow> Some n))"
  by (auto simp: querySelector_def find_append_nodes split: option.splits)

text \<open>The node \<open>detach_first\<close> takes out is the one \<open>querySelector\<close> returns.\<close>

lemma detach_first_querySelector:
  "map_option fst (detach_first sel ns) = querySelector sel ns"
proof (induction sel ns rule: detach_first.induct)
  case (1 sel)
  show ?case by (simp add: querySelector_Nil)
next
  case (2 sel s ns)
  then show ?case by (auto simp: querySelector_Text split: option.splits)
next
  case (3 sel i t cs as ks ns)
  show ?case
  proof (cases "sel (Element i t cs as ks)")
    case True
    then show ?thesis by (simp add: querySelector_Element)
  next
    case False
    with 3 have ks: "map_option fst (detach_first sel ks) = querySelector sel ks"
      and ns: "detach_first sel ks = None \<Longrightarrow>
                 map_option fst (detach_first sel ns) = querySelector sel ns"
      by simp_all
    show ?thesis
    proof (cases "detach_first sel ks")
      case None
      with ks ns False show ?thesis
        by (auto simp: querySelector_Element split: option.splits)
    next
      case (Some p)
      with ks False show ?thesis
        by (cases p) (auto simp: querySelector_Element split: option.splits)
    qed
  qed
qed

text \<open>
  What \<open>styleMover\<close> does once it is called with a URL that the selector text takes
  literally: a stylesheet link that is somewhere under the head ends up as the last
  child of the head, and the body is left alone.
\<close>

lemma styleMover_moves_last:
  assumes "plain_css_string linkURL"
    and "querySelector (link_href linkURL) hd_children = Some w3cStyle"
  shows "last (fst (styleMover eng linkURL (hd_children, bd_children))) = w3cStyle"
    and "snd (styleMover eng linkURL (hd_children, bd_children)) = bd_children"
proof -
  from assms(2) obtain rest
    where "detach_first (link_href linkURL) hd_children = Some (w3cStyle, rest)"
    using detach_first_querySelector [of "link_href linkURL" hd_children] by auto
  with assms(1) show "last (fst (styleMover eng linkURL (hd_children, bd_children))) = w3cStyle"
    and "snd (styleMover eng linkURL (hd_children, bd_children)) = bd_children"
    by (simp_all add: styleMover_def)
qed

text \<open>
  C2. After \<open>run(conf)\<close> and the export event, the stylesheet link that \<open>run\<close> inserted
  is to be the last child of the head, whatever was appended in between. Evaluated on
  src/netage/style.js for \<open>{specStatus: "NETAGE-CV"}\<close> on a blank page: \<open>run\<close> returns
  with the link as the only child of the head; a \<open>style\<close> element is appended; the
  \<open>beforesave\<close> event is published. The link stays in front of the \<open>style\<close> element,
  since \<open>run\<close> never subscribes \<open>styleMover\<close>.
\<close>

theorem style_run_link_not_moved_at_export:
  "thrown (style_run eng [''specStatus'' \<mapsto> JStr ''NETAGE-CV''] blank_page) = None
   \<and> head (page_after (style_run eng [''specStatus'' \<mapsto> JStr ''NETAGE-CV''] blank_page))
       = [stylesheet_link ''https://netage.github.io/respec_resources/styles/NETAGE-CV.css'']
   \<and> subscriptions (page_after (style_run eng [''specStatus'' \<mapsto> JStr ''NETAGE-CV''] blank_page))
       = [(''end-all'', AttachFixupScript ''2016'', True)]
   \<and> head (pub eng ''beforesave'' []
        (appendChild_head (Element () ''style'' [] [] [])
          (page_after (style_run eng [''specStatus'' \<mapsto> JStr ''NETAGE-CV''] blank_page))))
       = [stylesheet_link ''https://netage.github.io/respec_resources/styles/NETAGE-CV.css'',
          Element () ''style'' [] [] []]"
  using toUpperCase_code [of "''NETAGE-CV''" eng]
  by (simp add: style_run_def thrown_def page_after_def blank_page_def get_prop_def Let_def
      status_codes_def selectStyleFile_def linkCSS_def sub_def pub_def appendChild_head_def)

text \<open>
  The same for every configuration with a string or missing status, every page without
  subscribers, every event and every appended node: after \<open>run\<close> of
  src/netage/style.js nothing is subscribed that touches the head, so whatever is
  appended after \<open>run\<close> is still the last child of the head once the event has been
  delivered.
\<close>

lemma fold_fixup_head:
  "(\<And>t h once. (t, h, once) \<in> set hs \<Longrightarrow> \<exists>v. h = AttachFixupScript v) \<Longrightarrow>
     head (fold (\<lambda>(t, h, once). handle eng h) hs w) = head w"
proof (induction hs arbitrary: w)
  case Nil
  show ?case by simp
next
  case (Cons x hs)
  obtain t h once where x: "x = (t, h, once)" by (cases x) auto
  with Cons.prems [of t h once] obtain v where h: "h = AttachFixupScript v" by auto
  have "head (fold (\<lambda>(t, h, once). handle eng h) hs (handle eng h w)) = head (handle eng h w)"
    using Cons.prems by (intro Cons.IH) auto
  with x h show ?case by (simp add: attachFixupScript_def Let_def)
qed

lemma pub_fixup_head:
  assumes "\<And>t h once. (t, h, once) \<in> set (subscriptions w) \<Longrightarrow> \<exists>v. h = AttachFixupScript v"
  shows "head (pub eng topic payload w) = head w"
proof -
  have "head (fold (\<lambda>(t, h, once). handle eng h)
                (filter (\<lambda>(t, h, once). t = topic) (subscriptions w)) w') = head w'" for w'
    using assms by (intro fold_fixup_head) auto
  then show ?thesis by (simp add: pub_def Let_def)
qed

lemma style_run_subscriptions:
  assumes "subscriptions w = []"
    and "falsy (get_prop conf ''specStatus'') \<or> get_prop conf ''specStatus'' = JStr s"
    and "(t, h, once) \<in> set (subscriptions (page_after (style_run eng conf w)))"
  shows "h = AttachFixupScript ''2016''"
proof (cases "falsy (get_prop conf ''specStatus'')")
  case True
  with assms(1,3) show ?thesis
    by (simp add: style_run_def page_after_def Let_def get_prop_def linkCSS_def sub_def pub_def
        split: if_splits)
next
  case False
  with assms show ?thesis
    by (simp add: style_run_def page_after_def Let_def linkCSS_def sub_def split: if_splits)
qed

lemma style_run_appended_stays_last:
  assumes "subscriptions w = []"
    and "falsy (get_prop conf ''specStatus'') \<or> get_prop conf ''specStatus'' = JStr s"
  shows "head (pub eng topic payload (appendChild_head x (page_after (style_run eng conf w))))
           = head (page_after (style_run eng conf w)) @ [x]"
proof -
  have "head (pub eng topic payload (appendChild_head x (page_after (style_run eng conf w))))
          = head (appendChild_head x (page_after (style_run eng conf w)))"
    using style_run_subscriptions [OF assms, of _ _ _ eng]
    by (intro pub_fixup_head) (auto simp: appendChild_head_def)
  then show ?thesis by (simp add: appendChild_head_def)
qed

text \<open>
  Had the handler been subscribed, the same export would have put the link last.
\<close>

lemma styleMover_at_export:
  "head (pub eng ''beforesave'' []
     (sub ''beforesave''
        (StyleMover ''https://netage.github.io/respec_resources/styles/NETAGE-CV.css'') False
        (appendChild_head (Element () ''style'' [] [] [])
          (page_after (style_run eng [''specStatus'' \<mapsto> JStr ''NETAGE-CV''] blank_page)))))
   = [Element () ''style'' [] [] [],
      stylesheet_link ''https://netage.github.io/respec_resources/styles/NETAGE-CV.css'']"
proof -
  have "plain_css_string ''https://netage.github.io/respec_resources/styles/NETAGE-CV.css''"
    by (simp add: plain_css_string_def)
  then show ?thesis
    using toUpperCase_code [of "''NETAGE-CV''" eng]
    by (simp add: style_run_def page_after_def blank_page_def get_prop_def Let_def
        status_codes_def selectStyleFile_def linkCSS_def sub_def pub_def appendChild_head_def
        styleMover_def stylesheet_link_def)
qed

section \<open>The style plugin: the viewport meta element at module load\<close>

lemma querySelector_None_iff:
  "querySelector sel ks = None \<longleftrightarrow> querySelectorAll sel ks = []"
  by (auto simp: querySelector_def querySelectorAll_def find_None_iff filter_empty_conv)

lemma querySelectorAll_append:
  "querySelectorAll sel (xs @ ys) = querySelectorAll sel xs @ querySelectorAll sel ys"
  by (simp add: querySelectorAll_def)

lemma querySelectorAll_Cons:
  "querySelectorAll sel (x # ys) = filter sel (nodes_of x) @ querySelectorAll sel ys"
  by (simp add: querySelectorAll_def)

lemma meta_viewport_created: "meta_viewport (createMetaViewport tkv)"
  by (simp add: createMetaViewport_def)

lemma nodes_of_created: "nodes_of (createMetaViewport tkv) = [createMetaViewport tkv]"
  by (simp add: createMetaViewport_def)

lemma style_hints_no_viewport:
  "querySelectorAll meta_viewport (createResourceHints @ [createBaseStyle]) = []"
  by (simp add: querySelectorAll_def createResourceHints_def createResourceHint_def
      createBaseStyle_def)

lemma part000_hints_no_viewport:
  "querySelectorAll meta_viewport (part000_createResourceHints @ [part000_createBaseStyle]) = []"
  by (simp add: querySelectorAll_def part000_createResourceHints_def createResourceHint_def
      part000_createBaseStyle_def)

lemma style_load_absent:
  assumes "querySelectorAll meta_viewport hd_children = []"
  shows "querySelectorAll meta_viewport (style_load tkv hd_children) = [createMetaViewport tkv]"
    and "style_load tkv hd_children
           = createMetaViewport tkv # createResourceHints @ [createBaseStyle] @ hd_children"
  using assms style_hints_no_viewport
  by (simp_all add: style_load_def querySelector_None_iff querySelectorAll_Cons
      querySelectorAll_append nodes_of_created meta_viewport_created)

lemma style_load_present:
  assumes "querySelectorAll meta_viewport hd_children \<noteq> []"
  shows "style_load tkv hd_children = createResourceHints @ [createBaseStyle] @ hd_children"
    and "querySelectorAll meta_viewport (style_load tkv hd_children)
           = querySelectorAll meta_viewport hd_children"
  using assms style_hints_no_viewport
  by (simp_all add: style_load_def querySelector_None_iff querySelectorAll_append
      querySelectorAll_Cons)

lemma part000_load_absent:
  assumes "querySelectorAll meta_viewport hd_children = []"
  shows "querySelectorAll meta_viewport (part000_load tkv hd_children) = [createMetaViewport tkv]"
    and "part000_load tkv hd_children
           = createMetaViewport tkv # part000_createResourceHints @ [part000_createBaseStyle]
               @ hd_children"
  using assms part000_hints_no_viewport
  by (simp_all add: part000_load_def querySelector_None_iff querySelectorAll_Cons
      querySelectorAll_append nodes_of_created meta_viewport_created)

lemma part000_load_present:
  assumes "querySelectorAll meta_viewport hd_children \<noteq> []"
  shows "part000_load tkv hd_children
           = part000_createResourceHints @ [part000_createBaseStyle] @ hd_children"
    and "querySelectorAll meta_viewport (part000_load tkv hd_children)
           = querySelectorAll meta_viewport hd_children"
  using assms part000_hints_no_viewport
  by (simp_all add: part000_load_def querySelector_None_iff querySelectorAll_append
      querySelectorAll_Cons)

text \<open>
  C9. If nothing under the head matches \<open>meta[name=viewport]\<close> before the style module
  loads, then afterwards exactly one element does, the one the module created, and it is
  the first child of the head; if one is there already, the matching elements are the
  same as before, so none is added. This holds for both copies of the module.
\<close>

theorem load_inserts_viewport:
  "(querySelectorAll meta_viewport hd_children = [] \<longrightarrow>
      querySelectorAll meta_viewport (style_load tkv hd_children) = [createMetaViewport tkv]
      \<and> hd (style_load tkv hd_children) = createMetaViewport tkv
      \<and> querySelectorAll meta_viewport (part000_load tkv hd_children) = [createMetaViewport tkv]
      \<and> hd (part000_load tkv hd_children) = createMetaViewport tkv)
   \<and> (querySelectorAll meta_viewport hd_children \<noteq> [] \<longrightarrow>
      querySelectorAll meta_viewport (style_load tkv hd_children)
        = querySelectorAll meta_viewport hd_children
      \<and> querySelectorAll meta_viewport (part000_load tkv hd_children)
        = querySelectorAll meta_viewport hd_children)"
  using style_load_absent [of hd_children tkv] style_load_present [of hd_children tkv]
    part000_load_absent [of hd_children tkv] part000_load_present [of hd_children tkv]
  by simp

text \<open>
  A head holding only a title gets the viewport meta element in front; a head whose
  \<open>noscript\<close> child already holds one keeps exactly that one.
\<close>

theorem load_inserts_viewport_witness:
  "querySelectorAll meta_viewport [Element () ''title'' [] [] [Text ''Spec'']] = []
   \<and> querySelectorAll meta_viewport
        (style_load (\<lambda>ps. []) [Element () ''title'' [] [] [Text ''Spec'']])
       = [createMetaViewport (\<lambda>ps. [])]
   \<and> hd (style_load (\<lambda>ps. []) [Element () ''title'' [] [] [Text ''Spec'']])
       = createMetaViewport (\<lambda>ps. [])
   \<and> hd (part000_load (\<lambda>ps. []) [Element () ''title'' [] [] [Text ''Spec'']])
       = createMetaViewport (\<lambda>ps. [])
   \<and> querySelectorAll meta_viewport
        [Element () ''noscript'' [] [] [Element () ''meta'' [] [(''name'', ''viewport'')] []]] \<noteq> []
   \<and> querySelectorAll meta_viewport
        (style_load (\<lambda>ps. [])
          [Element () ''noscript'' [] [] [Element () ''meta'' [] [(''name'', ''viewport'')] []]])
       = [Element () ''meta'' [] [(''name'', ''viewport'')] []]"
proof -
  have a: "querySelectorAll meta_viewport [Element () ''title'' [] [] [Text ''Spec'']] = []"
    by (simp add: querySelectorAll_def)
  have b: "querySelectorAll meta_viewport
        [Element () ''noscript'' [] [] [Element () ''meta'' [] [(''name'', ''viewport'')] []]]
       = [Element () ''meta'' [] [(''name'', ''viewport'')] []]"
    by (simp add: querySelectorAll_def)
  show ?thesis
    using a b
      load_inserts_viewport [of "[Element () ''title'' [] [] [Text ''Spec'']]" "\<lambda>ps. []"]
      load_inserts_viewport
        [of "[Element () ''noscript'' [] [] [Element () ''meta'' [] [(''name'', ''viewport'')] []]]"
            "\<lambda>ps. []"]
    by simp
qed

section \<open>The build script: exit codes and failures\<close>

lemma build_no_entry:
  assumes "name \<noteq> []" and "require_resolve env (''../js/profile-'' @ name @ ''.js'') = None"
  shows "snd (build env name dbg fs) \<noteq> None"
    and "getRespecVersion env fs = Inr v \<Longrightarrow>
           snd (build env name dbg fs) = Some (ModuleNotFound (''../js/profile-'' @ name @ ''.js''))"
  using assms by (simp_all add: build_def Let_def split: sum.splits)

lemma build_compile_errors:
  assumes "name \<noteq> []"
    and "getRespecVersion env fs = Inr v"
    and "require_resolve env (''../js/profile-'' @ name @ ''.js'') = Some entry"
    and "require_resolve env ''../js/shortcut.js'' = Some shortcut"
    and "webpack env
           \<lparr>config_mode = (if dbg then ''none'' else ''production''), config_entry = entry,
            config_output_path = path_join env (dirname env) ''../builds'',
            config_output_filename = ''respec-'' @ name @ ''.js'',
            config_rule_test = shortcut\<rparr> fs = (Inr st, fs1)"
    and "hasErrors st"
  shows "build env name dbg fs = (fs1, Some (BuildError (array_toString (json_errors st))))"
  using assms by (simp add: build_def Let_def)

lemma builder_run_build:
  assumes "commandLineArgs env optionList = Inr a" and "\<not> arg_help a"
    and "arg_profile a = Some name" and "name \<noteq> []"
  shows "fst (builder_run env optionList fs)
           = (if snd (build env name (arg_debug a) fs) = None then Exit 0 else Exit 1)"
  using assms by (simp add: builder_run_def split: prod.splits option.splits)

text \<open>
  C8. The build CLI exits with code 127 when argument parsing fails, with code 0 on
  \<open>--help\<close> and after a successful build, and with code 1 when the build fails;
  \<open>build({name, debug})\<close> fails when the entry module of the named profile cannot be
  resolved (with the error that names the module, once the version has been read) and
  when the bundler reports compile errors (with an error made of the reported errors).
\<close>

theorem builder_exit_codes:
  "(commandLineArgs env optionList = Inl err \<longrightarrow> fst (builder_run env optionList fs) = Exit 127)
   \<and> (commandLineArgs env optionList = Inr a \<and> arg_help a \<longrightarrow>
        fst (builder_run env optionList fs) = Exit 0)
   \<and> (commandLineArgs env optionList = Inr a \<and> \<not> arg_help a \<and> arg_profile a = Some name
        \<and> name \<noteq> [] \<longrightarrow>
        (snd (build env name (arg_debug a) fs) = None \<longrightarrow>
           fst (builder_run env optionList fs) = Exit 0)
        \<and> (snd (build env name (arg_debug a) fs) \<noteq> None \<longrightarrow>
           fst (builder_run env optionList fs) = Exit 1))
   \<and> (name \<noteq> [] \<and> require_resolve env (''../js/profile-'' @ name @ ''.js'') = None \<longrightarrow>
        snd (build env name dbg fs) \<noteq> None
        \<and> (getRespecVersion env fs = Inr v \<longrightarrow>
             snd (build env name dbg fs)
               = Some (ModuleNotFound (''../js/profile-'' @ name @ ''.js''))))
   \<and> (name \<noteq> [] \<and> getRespecVersion env fs = Inr v
        \<and> require_resolve env (''../js/profile-'' @ name @ ''.js'') = Some entry
        \<and> require_resolve env ''../js/shortcut.js'' = Some shortcut
        \<and> webpack env
             \<lparr>config_mode = (if dbg then ''none'' else ''production''), config_entry = entry,
              config_output_path = path_join env (dirname env) ''../builds'',
              config_output_filename = ''respec-'' @ name @ ''.js'',
              config_rule_test = shortcut\<rparr> fs = (Inr st, fs1)
        \<and> hasErrors st \<longrightarrow>
        snd (build env name dbg fs) = Some (BuildError (array_toString (json_errors st))))"
proof (intro conjI impI)
  assume "commandLineArgs env optionList = Inl err"
  then show "fst (builder_run env optionList fs) = Exit 127"
    by (simp add: builder_run_def)
next
  assume "commandLineArgs env optionList = Inr a \<and> arg_help a"
  then show "fst (builder_run env optionList fs) = Exit 0"
    by (simp add: builder_run_def)
next
  assume "commandLineArgs env optionList = Inr a \<and> \<not> arg_help a \<and> arg_profile a = Some name
        \<and> name \<noteq> []"
    and "snd (build env name (arg_debug a) fs) = None"
  then show "fst (builder_run env optionList fs) = Exit 0"
    using builder_run_build [of env a name fs] by simp
next
  assume "commandLineArgs env optionList = Inr a \<and> \<not> arg_help a \<and> arg_profile a = Some name
        \<and> name \<noteq> []"
    and "snd (build env name (arg_debug a) fs) \<noteq> None"
  then show "fst (builder_run env optionList fs) = Exit 1"
    using builder_run_build [of env a name fs] by simp
next
  assume "name \<noteq> [] \<and> require_resolve env (''../js/profile-'' @ name @ ''.js'') = None"
  then show "snd (build env name dbg fs) \<noteq> None"
    using build_no_entry(1) [of name env dbg fs] by simp
next
  assume "name \<noteq> [] \<and> require_resolve env (''../js/profile-'' @ name @ ''.js'') = None"
    and "getRespecVersion env fs = Inr v"
  then show "snd (build env name dbg fs)
               = Some (ModuleNotFound (''../js/profile-'' @ name @ ''.js''))"
    using build_no_entry(2) [of name env fs v dbg] by simp
next
  assume "name \<noteq> [] \<and> getRespecVersion env fs = Inr v
        \<and> require_resolve env (''../js/profile-'' @ name @ ''.js'') = Some entry
        \<and> require_resolve env ''../js/shortcut.js'' = Some shortcut
        \<and> webpack env
             \<lparr>config_mode = (if dbg then ''none'' else ''production''), config_entry = entry,
              config_output_path = path_join env (dirname env) ''../builds'',
              config_output_filename = ''respec-'' @ name @ ''.js'',
              config_rule_test = shortcut\<rparr> fs = (Inr st, fs1)
        \<and> hasErrors st"
  then show "snd (build env name dbg fs) = Some (BuildError (array_toString (json_errors st)))"
    using build_compile_errors [of name env fs v entry shortcut dbg st fs1] by simp
qed

text \<open>
  Five runs: a command line the parser rejects; \<open>--help\<close>; the profile \<open>netage\<close> with
  no module resolvable; the same with a bundler that reports two errors; the same with
  a bundler that succeeds.
\<close>

theorem builder_exit_codes_witness:
  "fst (builder_run (node_fixture (\<lambda>opts. Inl ''Unknown option: --x'') (\<lambda>p. None) bundler_ok)
          optionList files_fixture) = Exit 127
   \<and> fst (builder_run
          (node_fixture (\<lambda>opts. Inr \<lparr>arg_help = True, arg_profile = None, arg_debug = False\<rparr>)
             (\<lambda>p. None) bundler_ok)
          optionList files_fixture) = Exit 0
   \<and> snd (build (node_fixture
                  (\<lambda>opts. Inr \<lparr>arg_help = False, arg_profile = Some ''netage'', arg_debug = False\<rparr>)
                  (\<lambda>p. None) bundler_ok) ''netage'' False files_fixture)
       = Some (ModuleNotFound ''../js/profile-netage.js'')
   \<and> fst (builder_run
          (node_fixture
             (\<lambda>opts. Inr \<lparr>arg_help = False, arg_profile = Some ''netage'', arg_debug = False\<rparr>)
             (\<lambda>p. None) bundler_ok)
          optionList files_fixture) = Exit 1
   \<and> snd (build (node_fixture
                  (\<lambda>opts. Inr \<lparr>arg_help = False, arg_profile = Some ''netage'', arg_debug = False\<rparr>)
                  (\<lambda>p. Some p) bundler_errors) ''netage'' False files_fixture)
       = Some (BuildError ''e1,e2'')
   \<and> snd (build (node_fixture
                  (\<lambda>opts. Inr \<lparr>arg_help = False, arg_profile = Some ''netage'', arg_debug = False\<rparr>)
                  (\<lambda>p. Some p) bundler_ok) ''netage'' False files_fixture)
       = None
   \<and> fst (builder_run
          (node_fixture
             (\<lambda>opts. Inr \<lparr>arg_help = False, arg_profile = Some ''netage'', arg_debug = False\<rparr>)
             (\<lambda>p. Some p) bundler_ok)
          optionList files_fixture) = Exit 0"
proof -
  let ?args = "\<lparr>arg_help = False, arg_profile = Some ''netage'', arg_debug = False\<rparr>"
  let ?usage = "\<lparr>arg_help = True, arg_profile = None, arg_debug = False\<rparr>"
  let ?bad = "node_fixture (\<lambda>opts. Inl ''Unknown option: --x'') (\<lambda>p. None) bundler_ok"
  let ?hlp = "node_fixture (\<lambda>opts. Inr ?usage) (\<lambda>p. None) bundler_ok"
  let ?unres = "node_fixture (\<lambda>opts. Inr ?args) (\<lambda>p. None) bundler_ok"
  let ?errs = "node_fixture (\<lambda>opts. Inr ?args) (\<lambda>p. Some p) bundler_errors"
  let ?ok = "node_fixture (\<lambda>opts. Inr ?args) (\<lambda>p. Some p) bundler_ok"
  have version: "\<And>p r b. getRespecVersion (node_fixture p r b) files_fixture = Inr ''1.0.0''"
    by (simp add: getRespecVersion_def node_fixture_def files_fixture_def readFile_def)
  have ok: "snd (build ?ok ''netage'' False files_fixture) = None"
    by (simp add: build_def version Let_def)
       (simp add: node_fixture_def files_fixture_def bundler_ok_def appendBoilerplate_def
          readFile_def writeFile_def copyFile_def Let_def)
  have a: "fst (builder_run ?bad optionList files_fixture) = Exit 127"
    using builder_exit_codes [of ?bad "''Unknown option: --x''" files_fixture]
    by (simp add: node_fixture_def)
  have b: "fst (builder_run ?hlp optionList files_fixture) = Exit 0"
    using builder_exit_codes [of ?hlp _ files_fixture ?usage]
    by (simp add: node_fixture_def)
  have c: "snd (build ?unres ''netage'' False files_fixture)
             = Some (ModuleNotFound ''../js/profile-netage.js'')"
    using builder_exit_codes [of ?unres _ files_fixture ?args "''netage''" False "''1.0.0''"] version
    by (simp add: node_fixture_def)
  have d: "fst (builder_run ?unres optionList files_fixture) = Exit 1"
    using builder_exit_codes [of ?unres _ files_fixture ?args "''netage''" False "''1.0.0''"] c
    by (simp add: node_fixture_def)
  have e: "snd (build ?errs ''netage'' False files_fixture) = Some (BuildError ''e1,e2'')"
    using builder_exit_codes [of ?errs _ files_fixture ?args "''netage''" False "''1.0.0''"
        "''../js/profile-netage.js''" "''../js/shortcut.js''"
        "\<lparr>hasErrors = True, json_errors = [''e1'', ''e2'']\<rparr>" files_fixture] version
    by (simp add: node_fixture_def bundler_errors_def)
  have f: "fst (builder_run ?ok optionList files_fixture) = Exit 0"
    using builder_exit_codes [of ?ok _ files_fixture ?args "''netage''" False "''1.0.0''"] ok
    by (simp add: node_fixture_def)
  from a b c d e f ok show ?thesis by simp
qed

section \<open>The annotation plugin: where the fragments go\<close>

subsection \<open>Nodes and identities of a forest\<close>

lemma forest_induct [case_names Nil Text Element]:
  assumes "P []"
    and "\<And>s ns. P ns \<Longrightarrow> P (Text s # ns)"
    and "\<And>i t cs as ks ns. P ks \<Longrightarrow> P ns \<Longrightarrow> P (Element i t cs as ks # ns)"
  shows "P d"
  using assms by (induction "\<lambda>i::'a. [] :: 'a node list" d rule: annotated.induct) auto

lemma all_nodes_simps [simp]:
  "all_nodes [] = []"
  "all_nodes (Text s # ns) = Text s # all_nodes ns"
  "all_nodes (Element i t cs as ks # ns) = Element i t cs as ks # all_nodes ks @ all_nodes ns"
  "all_nodes (xs @ ys) = all_nodes xs @ all_nodes ys"
  by (simp_all add: all_nodes_def)

lemma nodes_of_all_nodes:
  "is_element n \<Longrightarrow> set (nodes_of n) = insert n (set (all_nodes (children n)))"
  by (cases n) (auto simp: all_nodes_def)

lemma node_ids_simps [simp]:
  "node_ids [] = []"
  "node_ids (Text s # ns) = node_ids ns"
  "node_ids (Element i t cs as ks # ns) = i # node_ids ks @ node_ids ns"
  "node_ids (xs @ ys) = node_ids xs @ node_ids ys"
  by (simp_all add: node_ids_def)

lemma node_ids_iff:
  "i \<in> set (node_ids d) \<longleftrightarrow> (\<exists>e\<in>set (all_nodes d). is_element e \<and> nid e = i)"
  by (auto simp: node_ids_def)

text \<open>The nodes under a node of the forest are nodes of the forest.\<close>

lemma all_nodes_closed:
  "e \<in> set (all_nodes d) \<Longrightarrow> is_element e \<Longrightarrow>
     set (all_nodes (children e)) \<subseteq> set (all_nodes d)"
proof (induction d rule: forest_induct)
  case Nil
  then show ?case by simp
next
  case (Text s ns)
  then show ?case by auto
next
  case (Element i t cs as ks ns)
  then show ?case by auto
qed

text \<open>In a well-formed forest an identity names one element.\<close>

lemma element_unique:
  assumes "distinct (node_ids d)"
    and "a \<in> set (all_nodes d)" "is_element a"
    and "b \<in> set (all_nodes d)" "is_element b"
    and "nid a = nid b"
  shows "a = b"
proof -
  from assms(1) have "inj_on nid (set (filter is_element (all_nodes d)))"
    by (simp add: node_ids_def distinct_map)
  with assms(2-6) show ?thesis by (auto dest: inj_onD)
qed

subsection \<open>Inserting after an element\<close>

lemma after_absent: "h \<notin> set (node_ids d) \<Longrightarrow> after h new d = d"
  by (induction d rule: forest_induct) auto

lemma after_append_absent:
  "h \<notin> set (node_ids xs) \<Longrightarrow> after h new (xs @ ys) = xs @ after h new ys"
  by (induction xs rule: forest_induct) (auto simp: after_absent)

lemma annotated_empty [simp]: "annotated (\<lambda>i. []) d = d"
  by (induction d rule: forest_induct) auto

lemma annotated_cong:
  "(\<And>i. i \<in> set (node_ids d) \<Longrightarrow> F i = G i) \<Longrightarrow> annotated F d = annotated G d"
  by (induction d rule: forest_induct) auto

lemma node_ids_annotated:
  "set (node_ids (annotated F d))
     = set (node_ids d) \<union> (\<Union>i\<in>set (node_ids d). set (node_ids (F i)))"
  by (induction d rule: forest_induct) auto

text \<open>
  One insertion on an annotated document is the annotation with the new node put in
  front of what already follows the element.
\<close>

lemma after_annotated_aux:
  assumes "\<And>i. h \<notin> set (node_ids (F i))" and "G h = new # F h" and "\<And>i. i \<noteq> h \<Longrightarrow> G i = F i"
  shows "distinct (node_ids d) \<Longrightarrow> after h new (annotated F d) = annotated G d"
proof (induction d rule: forest_induct)
  case Nil
  show ?case by simp
next
  case (Text s ns)
  then show ?case by simp
next
  case (Element i t cs as ks ns)
  from Element.prems have d: "distinct (node_ids ks)" "distinct (node_ids ns)" by auto
  note ks = Element.IH(1) [OF d(1)] and ns = Element.IH(2) [OF d(2)]
  show ?case
  proof (cases "i = h")
    case True
    with Element.prems have "h \<notin> set (node_ids ks)" "h \<notin> set (node_ids ns)" by auto
    then have "annotated G ks = annotated F ks" and "annotated G ns = annotated F ns"
      using assms(3) by (metis annotated_cong)+
    with True assms(2) show ?thesis by simp
  next
    case False
    then show ?thesis
      using assms(1) [of i] assms(3) [of i] by (simp add: after_append_absent ks ns)
  qed
qed

lemma after_annotated:
  assumes "distinct (node_ids d)" and "\<And>i. h \<notin> set (node_ids (F i))"
  shows "after h new (annotated F d) = annotated (F(h := new # F h)) d"
  using after_annotated_aux [of h F "F(h := new # F h)" new d] assms by simp

subsection \<open>Fresh identities\<close>

lemma fold_max_ge: "(a::nat) \<le> fold max xs a \<and> (\<forall>x\<in>set xs. x \<le> fold max xs a)"
proof (induction xs arbitrary: a)
  case Nil
  show ?case by simp
next
  case (Cons x xs)
  from Cons.IH [of "max x a"] show ?case by auto
qed

lemma fresh_id_above: "i \<in> set (node_ids d) \<Longrightarrow> i < fresh_id d"
  using fold_max_ge [of 0 "node_ids d"] by (auto simp: fresh_id_def)

lemma annotation_is_shape: "annotation_shape (annotation n)"
  by (simp add: annotation_def)

lemma node_ids_annotation: "node_ids [annotation n] = [n, Suc n]"
  by (simp add: annotation_def)

subsection \<open>The headings \<open>run\<close> collects\<close>

lemma informative_headings_found:
  assumes "n \<in> set (informative_headings doc)"
  shows "\<exists>s\<in>set (querySelectorAll section_informative doc).
           querySelector h2_to_h6 (children s) = Some n"
  using assms by (auto simp: informative_headings_def)

lemma find_SomeD: "List.find P xs = Some x \<Longrightarrow> x \<in> set xs \<and> P x"
  by (induction xs) (auto split: if_splits)

lemma querySelector_SomeD:
  "querySelector sel ks = Some n \<Longrightarrow> n \<in> set (all_nodes ks) \<and> sel n"
  unfolding querySelector_def all_nodes_def by (rule find_SomeD)

lemma informative_headings_nodes:
  assumes "n \<in> set (informative_headings doc)"
  shows "n \<in> set (all_nodes doc) \<and> h2_to_h6 n \<and> is_element n"
proof -
  from informative_headings_found [OF assms] obtain s
    where s: "s \<in> set (all_nodes doc)" and m: "section_informative s"
      and q: "querySelector h2_to_h6 (children s) = Some n"
    by (auto simp: querySelectorAll_def all_nodes_def)
  from m have e: "is_element s" by (cases s) simp_all
  from q have n: "n \<in> set (all_nodes (children s))" "h2_to_h6 n"
    using querySelector_SomeD by blast+
  from n(2) have "is_element n" by (cases n) simp_all
  with s n all_nodes_closed [OF s e] show ?thesis by auto
qed

lemma informative_headings_ids:
  "set (map nid (informative_headings doc)) \<subseteq> set (node_ids doc)"
  using informative_headings_nodes by (fastforce simp: node_ids_iff)

text \<open>
  How often an element is among the collected headings: once for every marked section
  whose first heading it is.
\<close>

lemma count_first_headings:
  "count_list (map nid (map the (filter (\<lambda>h. h \<noteq> None) (map q ss)))) i
     = length (filter (\<lambda>s. map_option nid (q s) = Some i) ss)"
  by (induction ss) auto

lemma count_informative_headings:
  "count_list (map nid (informative_headings doc)) i
     = length (sections_with_first_heading doc i)"
  unfolding informative_headings_def sections_with_first_heading_def
  by (rule count_first_headings)

lemma length_informative_headings:
  "length (informative_headings doc)
     = length (filter (\<lambda>s. querySelector h2_to_h6 (children s) \<noteq> None)
                 (querySelectorAll section_informative doc))"
  by (simp add: informative_headings_def filter_map comp_def)

subsection \<open>The insertions, one after the other\<close>

lemma run_fold:
  assumes "distinct (node_ids doc)"
  shows "set (map nid hs) \<subseteq> set (node_ids doc) \<Longrightarrow>
         (\<And>i. list_all annotation_shape (F i) \<and> set (node_ids (F i)) \<inter> set (node_ids doc) = {}) \<Longrightarrow>
         \<exists>G. fold (\<lambda>heading d. after (nid heading) (annotation (fresh_id d)) d) hs (annotated F doc)
                = annotated G doc
             \<and> (\<forall>i. list_all annotation_shape (G i)
                    \<and> set (node_ids (G i)) \<inter> set (node_ids doc) = {}
                    \<and> length (G i) = length (F i) + count_list (map nid hs) i)"
proof (induction hs arbitrary: F)
  case Nil
  then show ?case by auto
next
  case (Cons x xs)
  define n where "n = fresh_id (annotated F doc)"
  define F' where "F' = F(nid x := annotation n # F (nid x))"
  from Cons.prems(1) have hx: "nid x \<in> set (node_ids doc)" and xs: "set (map nid xs) \<subseteq> set (node_ids doc)"
    by auto
  have free: "nid x \<notin> set (node_ids (F i))" for i
    using Cons.prems(2) [of i] hx by auto
  have step: "after (nid x) (annotation n) (annotated F doc) = annotated F' doc"
    unfolding F'_def by (rule after_annotated [OF assms free])
  have "i < n" if "i \<in> set (node_ids doc)" for i
    using that fresh_id_above [of i "annotated F doc"] node_ids_annotated [of F doc]
    by (auto simp: n_def)
  then have new: "n \<notin> set (node_ids doc)" "Suc n \<notin> set (node_ids doc)"
    by fastforce+
  have inv: "list_all annotation_shape (F' i) \<and> set (node_ids (F' i)) \<inter> set (node_ids doc) = {}" for i
  proof (cases "i = nid x")
    case True
    have "node_ids (annotation n # F (nid x)) = n # Suc n # node_ids (F (nid x))"
      by (simp add: annotation_def)
    with True new Cons.prems(2) [of "nid x"] show ?thesis
      by (simp add: F'_def annotation_is_shape)
  next
    case False
    with Cons.prems(2) [of i] show ?thesis by (simp add: F'_def)
  qed
  from Cons.IH [of F', OF xs inv] obtain G
    where G: "fold (\<lambda>heading d. after (nid heading) (annotation (fresh_id d)) d) xs (annotated F' doc)
                = annotated G doc"
      and GI: "\<And>i. list_all annotation_shape (G i)
                    \<and> set (node_ids (G i)) \<inter> set (node_ids doc) = {}
                    \<and> length (G i) = length (F' i) + count_list (map nid xs) i"
    by blast
  have len: "length (G i) = length (F i) + count_list (map nid (x # xs)) i" for i
    using GI [of i] by (simp add: F'_def)
  have "fold (\<lambda>heading d. after (nid heading) (annotation (fresh_id d)) d) (x # xs) (annotated F doc)
          = annotated G doc"
    using G step by (simp add: n_def)
  with GI len show ?case by blast
qed

lemma informative_run_annotated:
  assumes "distinct (node_ids doc)"
  shows "\<exists>F. informative_run doc = annotated F doc
            \<and> (\<forall>i. length (F i) = count_list (map nid (informative_headings doc)) i
                   \<and> list_all annotation_shape (F i))"
proof -
  have "\<exists>G. fold (\<lambda>heading d. after (nid heading) (annotation (fresh_id d)) d)
               (informative_headings doc) (annotated (\<lambda>i. []) doc) = annotated G doc
             \<and> (\<forall>i. list_all annotation_shape (G i)
                    \<and> set (node_ids (G i)) \<inter> set (node_ids doc) = {}
                    \<and> length (G i)
                        = length ([] :: nat node list)
                          + count_list (map nid (informative_headings doc)) i)"
    by (rule run_fold [OF assms informative_headings_ids]) simp
  then show ?thesis by (auto simp: informative_run_def)
qed

subsection \<open>Counting what was inserted\<close>

lemma length_all_nodes_annotated:
  "length (all_nodes (annotated F d))
     = length (all_nodes d) + sum_list (map (\<lambda>i. length (all_nodes (F i))) (node_ids d))"
  by (induction d rule: forest_induct) auto

lemma annotation_shape_nodes:
  assumes "annotation_shape x"
  shows "length (nodes_of x) = 3"
proof (cases x)
  case (Text s)
  with assms show ?thesis by simp
next
  case E: (Element i t cs as ks)
  show ?thesis
  proof (cases ks)
    case Nil
    with assms E show ?thesis by simp
  next
    case K: (Cons k ks')
    show ?thesis
    proof (cases ks')
      case Nil
      with assms E K show ?thesis by (cases k) auto
    next
      case (Cons a b)
      with assms E K show ?thesis by (cases k) auto
    qed
  qed
qed

lemma length_all_nodes_shapes:
  "list_all annotation_shape xs \<Longrightarrow> length (all_nodes xs) = 3 * length xs"
  by (induction xs) (auto simp: all_nodes_def annotation_shape_nodes)

lemma sum_list_indicator:
  "sum_list (map (\<lambda>i. if x = i then 1 else 0) ys) = count_list ys x"
  by (induction ys) auto

lemma count_list_distinct: "distinct ys \<Longrightarrow> x \<in> set ys \<Longrightarrow> count_list ys x = 1"
  by (induction ys) (auto simp: count_list_0_iff)

lemma sum_list_count_list:
  "distinct ys \<Longrightarrow> set xs \<subseteq> set ys \<Longrightarrow> sum_list (map (count_list xs) ys) = length xs"
proof (induction xs)
  case Nil
  show ?case by simp
next
  case (Cons x xs)
  have "sum_list (map (count_list (x # xs)) ys)
          = sum_list (map (\<lambda>i. count_list xs i + (if x = i then 1 else 0)) ys)"
    by (rule arg_cong [where f = sum_list]) auto
  also have "\<dots> = sum_list (map (count_list xs) ys) + count_list ys x"
    by (simp add: sum_list_addf sum_list_indicator)
  finally have eq: "sum_list (map (count_list (x # xs)) ys)
                      = sum_list (map (count_list xs) ys) + count_list ys x" .
  from Cons have "sum_list (map (count_list xs) ys) = length xs" and "count_list ys x = 1"
    using count_list_distinct [of ys x] by auto
  then show ?case unfolding eq by simp
qed

subsection \<open>What is left alone\<close>

lemma kept_node:
  "e \<in> set (all_nodes d) \<Longrightarrow> (\<And>i. i \<in> set (node_ids [e]) \<Longrightarrow> F i = []) \<Longrightarrow>
     e \<in> set (all_nodes (annotated F d))"
proof (induction d rule: forest_induct)
  case Nil
  then show ?case by simp
next
  case (Text s ns)
  then show ?case by auto
next
  case (Element i t cs as ks ns)
  show ?case
  proof (cases "e = Element i t cs as ks")
    case True
    with Element.prems(2) have "annotated F ks = annotated (\<lambda>i. []) ks"
      by (intro annotated_cong) simp
    with True show ?thesis by simp
  next
    case False
    with Element show ?thesis by auto
  qed
qed

lemma no_target_inside:
  assumes wf: "distinct (node_ids doc)"
    and s: "s \<in> set (all_nodes doc)" "section_informative s"
    and none: "querySelector h2_to_h6 (children s) = None"
    and i: "i \<in> set (node_ids [s])"
  shows "i \<notin> set (map nid (informative_headings doc))"
proof
  assume "i \<in> set (map nid (informative_headings doc))"
  then obtain n where n: "n \<in> set (informative_headings doc)" "nid n = i" by auto
  then have nn: "n \<in> set (all_nodes doc)" "h2_to_h6 n" "is_element n"
    using informative_headings_nodes by blast+
  from s(2) have es: "is_element s" and hs: "\<not> h2_to_h6 s" by (cases s; auto)+
  from i obtain e where e: "e \<in> set (nodes_of s)" "is_element e" "nid e = i"
    by (auto simp: node_ids_def all_nodes_def)
  from e(1) have "e = s \<or> e \<in> set (all_nodes (children s))"
    using nodes_of_all_nodes [OF es] by auto
  with s(1) all_nodes_closed [OF s(1) es] have "e \<in> set (all_nodes doc)" by auto
  with wf nn e n(2) have "e = n" by (auto intro: element_unique)
  with e(1) nn(2) hs nodes_of_all_nodes [OF es] have "n \<in> set (all_nodes (children s))" by auto
  with nn(2) have "querySelectorAll h2_to_h6 (children s) \<noteq> []"
    by (auto simp: querySelectorAll_def all_nodes_def filter_empty_conv)
  with none show False by (simp add: querySelector_None_iff)
qed

subsection \<open>The claim\<close>

text \<open>
  C6, as amended. In a well-formed document with N marked sections that have a heading
  of level 2 to 6 among their descendants, one \<open>run()\<close> leaves the document with, right
  after each element, as many annotation fragments as there are marked sections whose
  first heading (levels 2 to 6, first in document order) that element is, and nothing
  else changed: N fragments are inserted in all (three nodes each), one directly after
  the first heading of each such section when these headings are distinct, consecutive
  ones when marked sections share their first heading; a marked section without a
  heading is skipped and is still there with the very content it had.
\<close>

theorem informative_run_annotates:
  "distinct (node_ids doc) \<Longrightarrow>
     (\<exists>F. informative_run doc = annotated F doc
          \<and> (\<forall>i. length (F i) = length (sections_with_first_heading doc i)
                 \<and> length (F i) = count_list (map nid (informative_headings doc)) i
                 \<and> list_all annotation_shape (F i)))
     \<and> length (informative_headings doc)
         = length (filter (\<lambda>s. querySelector h2_to_h6 (children s) \<noteq> None)
                     (querySelectorAll section_informative doc))
     \<and> length (all_nodes (informative_run doc))
         = length (all_nodes doc)
           + 3 * length (filter (\<lambda>s. querySelector h2_to_h6 (children s) \<noteq> None)
                           (querySelectorAll section_informative doc))
     \<and> (\<forall>s\<in>set (querySelectorAll section_informative doc).
          querySelector h2_to_h6 (children s) = None \<longrightarrow>
            s \<in> set (all_nodes (informative_run doc)))"
proof -
  assume wf: "distinct (node_ids doc)"
  from informative_run_annotated [OF wf] obtain F
    where run: "informative_run doc = annotated F doc"
      and len: "\<And>i. length (F i) = count_list (map nid (informative_headings doc)) i"
      and shape: "\<And>i. list_all annotation_shape (F i)"
    by blast
  have first: "length (F i) = length (sections_with_first_heading doc i)" for i
    using len [of i] by (simp add: count_informative_headings)
  have "sum_list (map (\<lambda>i. length (all_nodes (F i))) (node_ids doc))
          = sum_list (map (\<lambda>i. 3 * count_list (map nid (informative_headings doc)) i) (node_ids doc))"
    using len shape by (simp add: length_all_nodes_shapes)
  also have "\<dots> = 3 * sum_list (map (count_list (map nid (informative_headings doc))) (node_ids doc))"
    by (simp add: sum_list_const_mult)
  also have "\<dots> = 3 * length (informative_headings doc)"
    using sum_list_count_list [OF wf informative_headings_ids [of doc]] by simp
  finally have "length (all_nodes (informative_run doc))
         = length (all_nodes doc) + 3 * length (informative_headings doc)"
    by (simp add: run length_all_nodes_annotated)
  then have count: "length (all_nodes (informative_run doc))
         = length (all_nodes doc)
           + 3 * length (filter (\<lambda>s. querySelector h2_to_h6 (children s) \<noteq> None)
                           (querySelectorAll section_informative doc))"
    by (simp only: length_informative_headings)
  have kept: "s \<in> set (all_nodes (informative_run doc))"
    if s: "s \<in> set (querySelectorAll section_informative doc)"
      and none: "querySelector h2_to_h6 (children s) = None" for s
  proof -
    from s have sd: "s \<in> set (all_nodes doc)" and m: "section_informative s"
      by (auto simp: querySelectorAll_def all_nodes_def)
    have "F i = []" if "i \<in> set (node_ids [s])" for i
      using no_target_inside [OF wf sd m none that] len [of i] by (simp add: count_list_0_iff)
    then show ?thesis unfolding run by (rule kept_node [OF sd])
  qed
  from run first len shape count kept length_informative_headings [of doc] show ?thesis by blast
qed

text \<open>
  On the specification's example the heading \<open>Foo\<close> (identity 2) is the first heading
  of one section, the fragment goes right after it, and the second section is left
  alone.
\<close>

theorem informative_run_annotates_witness:
  "distinct (node_ids example_document)
   \<and> length (sections_with_first_heading example_document 2) = 1
   \<and> length (informative_headings example_document) = 1
   \<and> length (all_nodes (informative_run example_document))
       = length (all_nodes example_document)
         + 3 * length (filter (\<lambda>s. querySelector h2_to_h6 (children s) \<noteq> None)
                         (querySelectorAll section_informative example_document))
   \<and> informative_run example_document =
       [Element 1 ''section'' [''informative''] []
          [Element 2 ''h3'' [] [] [Text ''Foo''], annotation 5],
        Element 3 ''section'' [''informative''] [] [Element 4 ''p'' [] [] [Text ''Bar'']]]"
proof -
  have h: "distinct (node_ids example_document)"
    by (simp add: example_document_def)
  have n: "informative_headings example_document = [Element 2 ''h3'' [] [] [Text ''Foo'']]"
    by (simp add: example_document_def informative_headings_def querySelectorAll_def
        querySelector_def)
  have f: "length (sections_with_first_heading example_document 2) = 1"
    by (simp add: example_document_def sections_with_first_heading_def querySelectorAll_def
        querySelector_def)
  have r: "informative_run example_document =
       [Element 1 ''section'' [''informative''] []
          [Element 2 ''h3'' [] [] [Text ''Foo''], annotation 5],
        Element 3 ''section'' [''informative''] [] [Element 4 ''p'' [] [] [Text ''Bar'']]]"
    by (simp add: informative_run_def n)
       (simp add: example_document_def fresh_id_def annotation_def)
  from informative_run_annotates [OF h]
  have c: "length (all_nodes (informative_run example_document))
       = length (all_nodes example_document)
         + 3 * length (filter (\<lambda>s. querySelector h2_to_h6 (children s) \<noteq> None)
                         (querySelectorAll section_informative example_document))"
    by blast
  from n have l: "length (informative_headings example_document) = 1" by simp
  from h f l c r show ?thesis by blast
qed

text \<open>
  The claim as stated fails when two marked sections share their first heading: in the
  nested document both sections have the heading 3 as their first heading, two
  fragments are inserted, and the one inserted for the outer section (identity 4) is
  not directly after the heading, the one for the inner section (identity 6) is in
  between.
\<close>

theorem informative_run_shared_heading_counterexample:
  "length (filter (\<lambda>s. querySelector h2_to_h6 (children s) \<noteq> None)
             (querySelectorAll section_informative nested_document)) = 2
   \<and> informative_run nested_document =
       [Element 1 ''section'' [''informative''] []
          [Element 2 ''section'' [''informative''] []
             [Element 3 ''h2'' [] [] [Text ''Foo''], annotation 6, annotation 4]]]"
proof -
  have n: "informative_headings nested_document
             = [Element 3 ''h2'' [] [] [Text ''Foo''], Element 3 ''h2'' [] [] [Text ''Foo'']]"
    by (simp add: nested_document_def informative_headings_def querySelectorAll_def
        querySelector_def)
  have r: "informative_run nested_document =
       [Element 1 ''section'' [''informative''] []
          [Element 2 ''section'' [''informative''] []
             [Element 3 ''h2'' [] [] [Text ''Foo''], annotation 6, annotation 4]]]"
    by (simp add: informative_run_def n)
       (simp add: nested_document_def fresh_id_def annotation_def)
  have "length (filter (\<lambda>s. querySelector h2_to_h6 (children s) \<noteq> None)
             (querySelectorAll section_informative nested_document)) = 2"
    by (simp add: nested_document_def querySelectorAll_def querySelector_def)
  with r show ?thesis by simp
qed

end
